theory Spec2Isabelle
  imports Main "HOL-Library.Word" "HOL-Library.Multiset"
begin

section \<open>Data model of package fee\<close>

text \<open>
  Go's \<open>int\<close> (64 bits on the platforms the server runs on) and \<open>int64\<close> are 64-bit
  words: \<open>+\<close> wraps around, and the comparisons \<open>\<le>\<close> and \<open><\<close> of the source are the
  signed ones, written \<open>sint a \<le> sint b\<close> here. A \<open>primitive.ObjectID\<close> is only ever
  compared for equality; it is a natural number.
\<close>

type_synonym goint = "64 word"
type_synonym ObjectID = nat

text \<open>
  \<open>type Fee struct\<close>. The field \<open>Amount\<close> is \<open>Amount_fee\<close> here, and the field
  \<open>Amount\<close> of a log is \<open>Amount_log\<close>, since the function \<open>Amount\<close> keeps the name.
\<close>

record Fee =
  Year :: goint
  Semester :: goint
  Amount_fee :: goint
  Logs :: "ObjectID list"

text \<open>
  Modelled from the spec: the struct \<open>Log\<close> and the type \<open>Logs\<close> are declared in a
  file of package fee that is not part of the sources at hand. A payment log has the
  fields \<open>_id\<close>, \<open>member_id\<close>, \<open>type\<close>, \<open>amount\<close> and \<open>updated_at\<close>; \<open>type\<close> is one of
  the strings the source writes and filters on (\<open>unapproved\<close>, \<open>approved\<close>, \<open>direct\<close>),
  \<open>updated_at\<close> a Unix time in seconds (\<open>int64\<close>).
\<close>

record Log =
  ID :: ObjectID
  MemberID :: string
  Type :: string
  Amount_log :: goint
  UpdatedAt :: goint

text \<open>
  Modelled from the spec: the constructor \<open>NewLog\<close> is declared in the same missing
  file. It assigns the identifier the generator hands out (\<open>oid\<close>), stamps the log with
  the current Unix time (\<open>now\<close>) and takes the member, the type and the amount from its
  arguments.
\<close>

definition NewLog :: "ObjectID \<Rightarrow> goint \<Rightarrow> string \<Rightarrow> string \<Rightarrow> goint \<Rightarrow> Log" where
  "NewLog oid now memberID typ amount =
     \<lparr>ID = oid, MemberID = memberID, Type = typ, Amount_log = amount, UpdatedAt = now\<rparr>"

text \<open>
  Modelled from the spec: \<open>member.Member\<close> belongs to package member, which is not part
  of the sources at hand. The fee code only filters member documents on their \<open>id\<close>
  field and returns them whole; \<open>Member_Name\<close> stands for the rest of the document.
\<close>

record Member =
  Member_ID :: string
  Member_Name :: string

text \<open>\<open>func New\<close>\<close>

definition New :: "goint \<Rightarrow> goint \<Rightarrow> goint \<Rightarrow> Fee" where
  "New year semester amount =
     \<lparr>Year = year, Semester = semester, Amount_fee = amount, Logs = []\<rparr>"

section \<open>The database\<close>

text \<open>
  Database \<open>club\<close> with its collections \<open>fees\<close>, \<open>logs\<close> and \<open>members\<close>; a collection
  is the list of its documents in insertion order.
\<close>

record store =
  fees :: "Fee list"
  logs :: "Log list"
  members :: "Member list"

text \<open>
  \<open>ErrDuplicatedFee\<close> is the package's own error, \<open>ErrNoDocuments\<close> is
  \<open>mongo.ErrNoDocuments\<close>, and \<open>DriverError c\<close> is any other error a driver call
  returns (no connection, deadline of the context exceeded, write error), told apart
  by a code \<open>c\<close>.
\<close>

datatype error = ErrDuplicatedFee | ErrNoDocuments | DriverError nat

text \<open>
  Every call into the driver may fail. The outcomes of the calls an operation is going
  to make are given in advance, one entry per call in the order the calls are issued:
  \<open>None\<close> lets the call through, \<open>Some c\<close> makes it return \<open>DriverError c\<close> without
  any effect on the database. Past the end of the schedule every call goes through,
  so the empty schedule is the run without any failure of the persistence layer.
\<close>

type_synonym faults = "nat option list"

definition call :: "faults \<Rightarrow> error option \<times> faults" where
  "call fs = (case fs of
      [] \<Rightarrow> (None, [])
    | None # r \<Rightarrow> (None, r)
    | Some c # r \<Rightarrow> (Some (DriverError c), r))"

text \<open>\<open>mongo.Connect\<close>, \<open>client.Disconnect\<close> and \<open>cur.Close\<close> have no effect on the data.\<close>

definition Connect :: "faults \<Rightarrow> error option \<times> faults" where
  "Connect fs = call fs"

definition Disconnect :: "faults \<Rightarrow> error option \<times> faults" where
  "Disconnect fs = call fs"

definition Close :: "faults \<Rightarrow> error option \<times> faults" where
  "Close fs = call fs"

text \<open>The filter \<open>{year: year, semester: semester}\<close> on the collection \<open>fees\<close>.\<close>

definition match_fee :: "goint \<Rightarrow> goint \<Rightarrow> Fee \<Rightarrow> bool" where
  "match_fee year semester f \<longleftrightarrow> Year f = year \<and> Semester f = semester"

text \<open>
  \<open>FindOne(filter).Decode(fee)\<close>: the first document that matches, or
  \<open>mongo.ErrNoDocuments\<close>.
\<close>

definition FindOne_fee :: "faults \<Rightarrow> (Fee \<Rightarrow> bool) \<Rightarrow> store \<Rightarrow> (error + Fee) \<times> faults" where
  "FindOne_fee fs p st = (case call fs of
      (Some e, r) \<Rightarrow> (Inl e, r)
    | (None, r) \<Rightarrow> (case find p (fees st) of
          None \<Rightarrow> (Inl ErrNoDocuments, r)
        | Some f \<Rightarrow> (Inr f, r)))"

text \<open>
  \<open>Find(filter)\<close>: a cursor over the documents that match, in the order of the
  collection.
\<close>

definition Find_log :: "faults \<Rightarrow> (Log \<Rightarrow> bool) \<Rightarrow> store \<Rightarrow> (error + Log list) \<times> faults" where
  "Find_log fs p st = (case call fs of
      (Some e, r) \<Rightarrow> (Inl e, r)
    | (None, r) \<Rightarrow> (Inr (filter p (logs st)), r))"

definition Find_member :: "faults \<Rightarrow> (Member \<Rightarrow> bool) \<Rightarrow> store \<Rightarrow> (error + Member list) \<times> faults" where
  "Find_member fs p st = (case call fs of
      (Some e, r) \<Rightarrow> (Inl e, r)
    | (None, r) \<Rightarrow> (Inr (filter p (members st)), r))"

text \<open>
  The loop \<open>for cur.Next(ctx) { if err = cur.Decode(x); err != nil { return }; body }\<close>
  over a cursor, with the state \<open>acc\<close> that the body updates. \<open>cur.Next\<close> is false
  when the cursor is exhausted and also when it fails to fetch; the source never asks
  \<open>cur.Err()\<close>, so the loop then just ends. A failing \<open>cur.Decode\<close> ends the loop
  with its error. The schedule may fail \<open>Next\<close> and \<open>Decode\<close> at any document; the
  driver fetches at the boundaries of its batches only, so this covers its runs.
\<close>

definition Next :: "faults \<Rightarrow> error option \<times> faults" where
  "Next fs = call fs"

definition Decode :: "faults \<Rightarrow> error option \<times> faults" where
  "Decode fs = call fs"

fun cursor_loop ::
  "faults \<Rightarrow> ('s \<Rightarrow> 'a \<Rightarrow> 's) \<Rightarrow> 's \<Rightarrow> 'a list \<Rightarrow> error option \<times> faults \<times> 's" where
  "cursor_loop fs body acc [] = (None, fs, acc)"
| "cursor_loop fs body acc (doc # cur) =
     (case Next fs of
         (Some e, r) \<Rightarrow> (None, r, acc)
       | (None, fs1) \<Rightarrow>
           (case Decode fs1 of
               (Some e, r) \<Rightarrow> (Some e, r, acc)
             | (None, fs2) \<Rightarrow> cursor_loop fs2 body (body acc doc) cur))"

text \<open>\<open>InsertOne\<close> on \<open>fees\<close>: a fee document has no \<open>_id\<close> of its own, the insert appends.\<close>

definition InsertOne_fee :: "faults \<Rightarrow> Fee \<Rightarrow> store \<Rightarrow> error option \<times> faults \<times> store" where
  "InsertOne_fee fs f st = (case call fs of
      (Some e, r) \<Rightarrow> (Some e, r, st)
    | (None, r) \<Rightarrow> (None, r, st\<lparr>fees := fees st @ [f]\<rparr>))"

text \<open>
  \<open>InsertOne\<close> on \<open>logs\<close>: \<open>_id\<close> is the unique key of the collection, and inserting
  a second document with the same \<open>_id\<close> is the write error E11000.
\<close>

definition InsertOne_log :: "faults \<Rightarrow> Log \<Rightarrow> store \<Rightarrow> error option \<times> faults \<times> store" where
  "InsertOne_log fs l st = (case call fs of
      (Some e, r) \<Rightarrow> (Some e, r, st)
    | (None, r) \<Rightarrow>
        if ID l \<in> set (map ID (logs st)) then (Some (DriverError 11000), r, st)
        else (None, r, st\<lparr>logs := logs st @ [l]\<rparr>))"

text \<open>\<open>UpdateOne\<close> changes the first document that matches; none matching is no error.\<close>

fun update_first :: "('a \<Rightarrow> bool) \<Rightarrow> ('a \<Rightarrow> 'a) \<Rightarrow> 'a list \<Rightarrow> 'a list" where
  "update_first p u [] = []"
| "update_first p u (x # xs) = (if p x then u x # xs else x # update_first p u xs)"

definition UpdateOne_fee ::
  "faults \<Rightarrow> (Fee \<Rightarrow> bool) \<Rightarrow> (Fee \<Rightarrow> Fee) \<Rightarrow> store \<Rightarrow> error option \<times> faults \<times> store" where
  "UpdateOne_fee fs p u st = (case call fs of
      (Some e, r) \<Rightarrow> (Some e, r, st)
    | (None, r) \<Rightarrow> (None, r, st\<lparr>fees := update_first p u (fees st)\<rparr>))"

text \<open>
  The update documents \<open>{$push: {logs: id}}\<close> (append to the array) and
  \<open>{$pull: {logs: id}}\<close> (remove every occurrence from the array).
\<close>

definition push_logs :: "ObjectID \<Rightarrow> Fee \<Rightarrow> Fee" where
  "push_logs oid f = f\<lparr>Logs := Logs f @ [oid]\<rparr>"

definition pull_logs :: "ObjectID \<Rightarrow> Fee \<Rightarrow> Fee" where
  "pull_logs oid f = f\<lparr>Logs := removeAll oid (Logs f)\<rparr>"

text \<open>\<open>UpdateMany\<close> changes every document that matches.\<close>

definition UpdateMany_log ::
  "faults \<Rightarrow> (Log \<Rightarrow> bool) \<Rightarrow> (Log \<Rightarrow> Log) \<Rightarrow> store \<Rightarrow> error option \<times> faults \<times> store" where
  "UpdateMany_log fs p u st = (case call fs of
      (Some e, r) \<Rightarrow> (Some e, r, st)
    | (None, r) \<Rightarrow> (None, r, st\<lparr>logs := map (\<lambda>l. if p l then u l else l) (logs st)\<rparr>))"

text \<open>\<open>DeleteOne\<close> removes the first document that matches; none matching is no error.\<close>

fun delete_first :: "('a \<Rightarrow> bool) \<Rightarrow> 'a list \<Rightarrow> 'a list" where
  "delete_first p [] = []"
| "delete_first p (x # xs) = (if p x then xs else x # delete_first p xs)"

definition DeleteOne_log :: "faults \<Rightarrow> (Log \<Rightarrow> bool) \<Rightarrow> store \<Rightarrow> error option \<times> faults \<times> store" where
  "DeleteOne_log fs p st = (case call fs of
      (Some e, r) \<Rightarrow> (Some e, r, st)
    | (None, r) \<Rightarrow> (None, r, st\<lparr>logs := delete_first p (logs st)\<rparr>))"

section \<open>The operations of package fee\<close>

text \<open>
  An operation that writes returns its error (\<open>None\<close> is \<open>nil\<close>) and the database it
  leaves behind, also when it fails half way. An operation that reads returns both of
  its Go results, the value and the error.
\<close>

text \<open>\<open>func Create\<close>\<close>

definition Create :: "faults \<Rightarrow> goint \<Rightarrow> goint \<Rightarrow> goint \<Rightarrow> store \<Rightarrow> error option \<times> store" where
  "Create fs year semester amount st = (case Connect fs of
      (Some e, _) \<Rightarrow> (Some e, st)
    | (None, fs1) \<Rightarrow> (case FindOne_fee fs1 (match_fee year semester) st of
        (r, fs2) \<Rightarrow>
          if r \<noteq> Inl ErrNoDocuments then
            (case Disconnect fs2 of
                (Some e, _) \<Rightarrow> (Some e, st)
              | (None, _) \<Rightarrow> (Some ErrDuplicatedFee, st))
          else
            (case InsertOne_fee fs2 (New year semester amount) st of
                (Some e, _, st1) \<Rightarrow> (Some e, st1)
              | (None, fs3, st1) \<Rightarrow> (fst (Disconnect fs3), st1))))"

text \<open>
  \<open>func Submit\<close>. \<open>oid\<close> and \<open>now\<close> are what the identifier generator and the clock
  give \<open>NewLog\<close>.
\<close>

definition Submit ::
  "faults \<Rightarrow> ObjectID \<Rightarrow> goint \<Rightarrow> string \<Rightarrow> goint \<Rightarrow> goint \<Rightarrow> goint \<Rightarrow> store
     \<Rightarrow> error option \<times> store" where
  "Submit fs oid now memberID year semester amount st = (case Connect fs of
      (Some e, _) \<Rightarrow> (Some e, st)
    | (None, fs1) \<Rightarrow>
        let log = NewLog oid now memberID ''unapproved'' amount in
        (case InsertOne_log fs1 log st of
            (Some e, _, st1) \<Rightarrow> (Some e, st1)
          | (None, fs2, st1) \<Rightarrow>
              (case UpdateOne_fee fs2 (match_fee year semester) (push_logs (ID log)) st1 of
                  (Some e, _, st2) \<Rightarrow> (Some e, st2)
                | (None, fs3, st2) \<Rightarrow> (fst (Disconnect fs3), st2))))"

text \<open>
  The database between the two storage steps of \<open>Submit\<close>: what the insertion of the
  log leaves behind, when the run gets that far.
\<close>

definition Submit_between ::
  "faults \<Rightarrow> ObjectID \<Rightarrow> goint \<Rightarrow> string \<Rightarrow> goint \<Rightarrow> store \<Rightarrow> store option" where
  "Submit_between fs oid now memberID amount st = (case Connect fs of
      (Some e, _) \<Rightarrow> None
    | (None, fs1) \<Rightarrow>
        (case InsertOne_log fs1 (NewLog oid now memberID ''unapproved'' amount) st of
            (Some e, _, _) \<Rightarrow> None
          | (None, _, st1) \<Rightarrow> Some st1))"

text \<open>
  \<open>func Amount\<close>; the loop over the cursor adds up from the zero value of \<open>sum\<close>,
  which is \<open>subtotal\<close> here.
\<close>

definition Amount :: "faults \<Rightarrow> goint \<Rightarrow> goint \<Rightarrow> string \<Rightarrow> store \<Rightarrow> goint \<times> error option" where
  "Amount fs year semester memberID st = (case Connect fs of
      (Some e, _) \<Rightarrow> (0, Some e)
    | (None, fs1) \<Rightarrow> (case FindOne_fee fs1 (match_fee year semester) st of
          (Inl e, _) \<Rightarrow> (0, Some e)
        | (Inr fee, fs2) \<Rightarrow>
            (case Find_log fs2 (\<lambda>l. MemberID l = memberID \<and> Type l = ''approved'') st of
                (Inl e, _) \<Rightarrow> (0, Some e)
              | (Inr cur, fs3) \<Rightarrow>
                  (case cursor_loop fs3 (\<lambda>subtotal log. subtotal + Amount_log log) 0 cur of
                      (Some e, _, subtotal) \<Rightarrow> (subtotal, Some e)
                    | (None, fs4, subtotal) \<Rightarrow>
                        (case Close fs4 of
                            (Some e, _) \<Rightarrow> (subtotal, Some e)
                          | (None, fs5) \<Rightarrow> (subtotal, fst (Disconnect fs5)))))))"

text \<open>
  The Go map \<open>amounts\<close> of \<open>Dones\<close> and \<open>Yets\<close> is a list of pairs with one entry per
  key; \<open>add_amount k v\<close> is \<open>amounts[k] += v\<close>, which starts a missing key at 0. The
  order in which \<open>range amounts\<close> visits the entries plays no part: the keys it
  selects only feed an \<open>$in\<close> filter.
\<close>

fun add_amount :: "string \<Rightarrow> goint \<Rightarrow> (string \<times> goint) list \<Rightarrow> (string \<times> goint) list" where
  "add_amount k v [] = [(k, 0 + v)]"
| "add_amount k v ((k', a) # m) =
     (if k' = k then (k', a + v) # m else (k', a) # add_amount k v m)"

text \<open>The map \<open>amounts\<close> of \<open>Dones\<close> and \<open>Yets\<close> after a loop over all of the logs \<open>cur\<close>.\<close>

definition amounts_loop :: "Log list \<Rightarrow> (string \<times> goint) list" where
  "amounts_loop cur =
     foldl (\<lambda>amounts log. add_amount (MemberID log) (Amount_log log) amounts) [] cur"

text \<open>
  \<open>func Dones\<close>. The results \<open>members\<close> and \<open>logs\<close> of the source are \<open>membs\<close> and
  \<open>lgs\<close> here, apart from the collections of the same names; the second cursor is
  \<open>cur2\<close>.
\<close>

definition Dones :: "faults \<Rightarrow> goint \<Rightarrow> goint \<Rightarrow> store \<Rightarrow> Member list \<times> error option" where
  "Dones fs year semester st = (case Connect fs of
      (Some e, _) \<Rightarrow> ([], Some e)
    | (None, fs1) \<Rightarrow> (case FindOne_fee fs1 (match_fee year semester) st of
          (Inl e, _) \<Rightarrow> ([], Some e)
        | (Inr fee, fs2) \<Rightarrow>
            (case Find_log fs2 (\<lambda>l. ID l \<in> set (Logs fee) \<and> Type l = ''approved'') st of
                (Inl e, _) \<Rightarrow> ([], Some e)
              | (Inr cur, fs3) \<Rightarrow>
                  (case cursor_loop fs3
                          (\<lambda>amounts log. add_amount (MemberID log) (Amount_log log) amounts)
                          [] cur of
                      (Some e, _, _) \<Rightarrow> ([], Some e)
                    | (None, fs4, amounts) \<Rightarrow>
                        (case Close fs4 of
                            (Some e, _) \<Rightarrow> ([], Some e)
                          | (None, fs5) \<Rightarrow>
                              let arr = map fst (filter (\<lambda>(membID, amount).
                                          sint (Amount_fee fee) \<le> sint amount) amounts)
                              in
                              (case Find_member fs5 (\<lambda>m. Member_ID m \<in> set arr) st of
                                  (Inl e, _) \<Rightarrow> ([], Some e)
                                | (Inr cur2, fs6) \<Rightarrow>
                                    (case cursor_loop fs6 (\<lambda>membs memb. membs @ [memb])
                                            [] cur2 of
                                        (Some e, _, membs) \<Rightarrow> (membs, Some e)
                                      | (None, fs7, membs) \<Rightarrow>
                                          (case Close fs7 of
                                              (Some e, _) \<Rightarrow> (membs, Some e)
                                            | (None, fs8) \<Rightarrow>
                                                (membs, fst (Disconnect fs8))))))))))"

text \<open>\<open>func Yets\<close>\<close>

definition Yets :: "faults \<Rightarrow> goint \<Rightarrow> goint \<Rightarrow> store \<Rightarrow> Member list \<times> error option" where
  "Yets fs year semester st = (case Connect fs of
      (Some e, _) \<Rightarrow> ([], Some e)
    | (None, fs1) \<Rightarrow> (case FindOne_fee fs1 (match_fee year semester) st of
          (Inl e, _) \<Rightarrow> ([], Some e)
        | (Inr fee, fs2) \<Rightarrow>
            (case Find_log fs2 (\<lambda>l. ID l \<in> set (Logs fee) \<and> Type l = ''approved'') st of
                (Inl e, _) \<Rightarrow> ([], Some e)
              | (Inr cur, fs3) \<Rightarrow>
                  (case cursor_loop fs3
                          (\<lambda>amounts log. add_amount (MemberID log) (Amount_log log) amounts)
                          [] cur of
                      (Some e, _, _) \<Rightarrow> ([], Some e)
                    | (None, fs4, amounts) \<Rightarrow>
                        (case Close fs4 of
                            (Some e, _) \<Rightarrow> ([], Some e)
                          | (None, fs5) \<Rightarrow>
                              let arr = map fst (filter (\<lambda>(membID, amount).
                                          sint amount < sint (Amount_fee fee)) amounts)
                              in
                              (case Find_member fs5 (\<lambda>m. Member_ID m \<in> set arr) st of
                                  (Inl e, _) \<Rightarrow> ([], Some e)
                                | (Inr cur2, fs6) \<Rightarrow>
                                    (case cursor_loop fs6 (\<lambda>membs memb. membs @ [memb])
                                            [] cur2 of
                                        (Some e, _, membs) \<Rightarrow> (membs, Some e)
                                      | (None, fs7, membs) \<Rightarrow>
                                          (case Close fs7 of
                                              (Some e, _) \<Rightarrow> (membs, Some e)
                                            | (None, fs8) \<Rightarrow>
                                                (membs, fst (Disconnect fs8))))))))))"

text \<open>
  \<open>func All\<close>, named \<open>All_logs\<close> since \<open>All\<close> is the universal quantifier of HOL.
  \<open>sort.Slice\<close> orders by the signed value of \<open>UpdatedAt\<close>; it promises nothing about
  the order of logs with equal time stamps, and the insertion sort here keeps them in
  the order of the cursor.
\<close>

definition All_logs :: "faults \<Rightarrow> goint \<Rightarrow> goint \<Rightarrow> store \<Rightarrow> Log list \<times> error option" where
  "All_logs fs year semester st = (case Connect fs of
      (Some e, _) \<Rightarrow> ([], Some e)
    | (None, fs1) \<Rightarrow> (case FindOne_fee fs1 (match_fee year semester) st of
          (Inl e, _) \<Rightarrow> ([], Some e)
        | (Inr fee, fs2) \<Rightarrow>
            (case Find_log fs2 (\<lambda>l. ID l \<in> set (Logs fee) \<and>
                                   (Type l = ''approved'' \<or> Type l = ''direct'')) st of
                (Inl e, _) \<Rightarrow> ([], Some e)
              | (Inr cur, fs3) \<Rightarrow>
                  (case cursor_loop fs3 (\<lambda>lgs log. lgs @ [log]) [] cur of
                      (Some e, _, lgs) \<Rightarrow> (lgs, Some e)
                    | (None, fs4, lgs) \<Rightarrow>
                        (case Close fs4 of
                            (Some e, _) \<Rightarrow> (lgs, Some e)
                          | (None, fs5) \<Rightarrow>
                              (sort_key (\<lambda>l. sint (UpdatedAt l)) lgs,
                               fst (Disconnect fs5)))))))"

text \<open>\<open>func Approve\<close>; \<open>now\<close> is \<open>time.Now().Unix()\<close>.\<close>

definition Approve :: "faults \<Rightarrow> goint \<Rightarrow> ObjectID list \<Rightarrow> store \<Rightarrow> error option \<times> store" where
  "Approve fs now ids st = (case Connect fs of
      (Some e, _) \<Rightarrow> (Some e, st)
    | (None, fs1) \<Rightarrow>
        (case UpdateMany_log fs1 (\<lambda>l. ID l \<in> set ids)
                (\<lambda>l. l\<lparr>Type := ''approved'', UpdatedAt := now\<rparr>) st of
            (Some e, _, st1) \<Rightarrow> (Some e, st1)
          | (None, fs2, st1) \<Rightarrow> (fst (Disconnect fs2), st1)))"

text \<open>
  \<open>func Reject\<close>; \<open>Reject_loop\<close> is its \<open>for _, id := range ids\<close>, the loop
  variable \<open>id\<close> being \<open>oid\<close> here.
\<close>

fun Reject_loop ::
  "faults \<Rightarrow> goint \<Rightarrow> goint \<Rightarrow> ObjectID list \<Rightarrow> store \<Rightarrow> error option \<times> faults \<times> store" where
  "Reject_loop fs year semester [] st = (None, fs, st)"
| "Reject_loop fs year semester (oid # ids) st =
     (case UpdateOne_fee fs (match_fee year semester) (pull_logs oid) st of
         (Some e, r, st1) \<Rightarrow> (Some e, r, st1)
       | (None, fs1, st1) \<Rightarrow>
           (case DeleteOne_log fs1 (\<lambda>l. ID l = oid) st1 of
               (Some e, r, st2) \<Rightarrow> (Some e, r, st2)
             | (None, fs2, st2) \<Rightarrow> Reject_loop fs2 year semester ids st2))"

definition Reject :: "faults \<Rightarrow> goint \<Rightarrow> goint \<Rightarrow> ObjectID list \<Rightarrow> store \<Rightarrow> error option \<times> store" where
  "Reject fs year semester ids st = (case Connect fs of
      (Some e, _) \<Rightarrow> (Some e, st)
    | (None, fs1) \<Rightarrow>
        (case Reject_loop fs1 year semester ids st of
            (Some e, _, st1) \<Rightarrow> (Some e, st1)
          | (None, fs2, st1) \<Rightarrow> (fst (Disconnect fs2), st1)))"

text \<open>
  \<open>func Deposit\<close>. The result of \<open>InsertOne\<close> is dropped: whatever the insertion
  returns, the run goes on to \<open>Disconnect\<close>.
\<close>

definition Deposit ::
  "faults \<Rightarrow> ObjectID \<Rightarrow> goint \<Rightarrow> goint \<Rightarrow> goint \<Rightarrow> goint \<Rightarrow> store \<Rightarrow> error option \<times> store" where
  "Deposit fs oid now year semester amount st = (case Connect fs of
      (Some e, _) \<Rightarrow> (Some e, st)
    | (None, fs1) \<Rightarrow>
        let deposit = NewLog oid now [] ''direct'' amount in
        (case UpdateOne_fee fs1 (match_fee year semester) (push_logs (ID deposit)) st of
            (Some e, _, st1) \<Rightarrow> (Some e, st1)
          | (None, fs2, st1) \<Rightarrow>
              (case InsertOne_log fs2 deposit st1 of
                  (_, fs3, st2) \<Rightarrow> (fst (Disconnect fs3), st2))))"

text \<open>The database between the two storage steps of \<open>Deposit\<close>.\<close>

definition Deposit_between ::
  "faults \<Rightarrow> ObjectID \<Rightarrow> goint \<Rightarrow> goint \<Rightarrow> goint \<Rightarrow> goint \<Rightarrow> store \<Rightarrow> store option" where
  "Deposit_between fs oid now year semester amount st = (case Connect fs of
      (Some e, _) \<Rightarrow> None
    | (None, fs1) \<Rightarrow>
        (case UpdateOne_fee fs1 (match_fee year semester)
                (push_logs (ID (NewLog oid now [] ''direct'' amount))) st of
            (Some e, _, _) \<Rightarrow> None
          | (None, _, st1) \<Rightarrow> Some st1))"

section \<open>The specification's notions\<close>

text \<open>
  The definitions of this section follow the words of the specification, not the code;
  the theorems below compare the operations with them.
\<close>

text \<open>
  The payment logs whose identifier is in the term's \<open>logs\<close> collection and whose type
  is \<open>approved\<close>, and the sum of their amounts for one member (in Go's \<open>int\<close>).
\<close>

definition approved_of_term :: "Fee \<Rightarrow> store \<Rightarrow> Log list" where
  "approved_of_term fee st =
     filter (\<lambda>l. ID l \<in> set (Logs fee) \<and> Type l = ''approved'') (logs st)"

definition summed_amount :: "Fee \<Rightarrow> store \<Rightarrow> string \<Rightarrow> goint" where
  "summed_amount fee st m =
     sum_list (map Amount_log (filter (\<lambda>l. MemberID l = m) (approved_of_term fee st)))"

text \<open>
  ComputePaid: group the approved logs of the term by \<open>member_id\<close>, select every member
  of a group whose summed amount is at least the term's amount, and resolve the
  identifiers to the member records. ComputeUnpaid: the same with a summed amount
  strictly below the term's amount.
\<close>

definition ComputePaid :: "Fee \<Rightarrow> store \<Rightarrow> Member list" where
  "ComputePaid fee st =
     filter (\<lambda>mb. Member_ID mb \<in> set (map MemberID (approved_of_term fee st)) \<and>
                  sint (Amount_fee fee) \<le> sint (summed_amount fee st (Member_ID mb)))
       (members st)"

definition ComputeUnpaid :: "Fee \<Rightarrow> store \<Rightarrow> Member list" where
  "ComputeUnpaid fee st =
     filter (\<lambda>mb. Member_ID mb \<in> set (map MemberID (approved_of_term fee st)) \<and>
                  sint (summed_amount fee st (Member_ID mb)) < sint (Amount_fee fee))
       (members st)"

text \<open>
  Rejecting one identifier: pull it from the \<open>logs\<close> collection of the term with that
  year and semester, then delete the payment log.
\<close>

definition reject_one :: "goint \<Rightarrow> goint \<Rightarrow> store \<Rightarrow> ObjectID \<Rightarrow> store" where
  "reject_one year semester st oid =
     st\<lparr>fees := update_first (match_fee year semester) (pull_logs oid) (fees st),
        logs := delete_first (\<lambda>l. ID l = oid) (logs st)\<rparr>"

text \<open>
  No dangling reference: every identifier in the \<open>logs\<close> collection of a term is the
  identifier of a payment log in storage. \<open>(year, semester)\<close> identifies at most one term.
\<close>

definition no_dangling :: "store \<Rightarrow> bool" where
  "no_dangling st \<longleftrightarrow>
     (\<forall>f \<in> set (fees st). \<forall>oid \<in> set (Logs f). oid \<in> set (map ID (logs st)))"

definition unique_terms :: "store \<Rightarrow> bool" where
  "unique_terms st \<longleftrightarrow> distinct (map (\<lambda>f. (Year f, Semester f)) (fees st))"

definition consistent :: "store \<Rightarrow> bool" where
  "consistent st \<longleftrightarrow> no_dangling st \<and> unique_terms st"

text \<open>
  The caller of \<open>Reject\<close> names the term. \<open>owned_by year semester ids st\<close>: no term other
  than the named one holds one of the identifiers.
\<close>

definition owned_by :: "goint \<Rightarrow> goint \<Rightarrow> ObjectID list \<Rightarrow> store \<Rightarrow> bool" where
  "owned_by year semester ids st \<longleftrightarrow>
     (\<forall>f \<in> set (fees st). \<forall>oid \<in> set ids. oid \<in> set (Logs f) \<longrightarrow> match_fee year semester f)"

text \<open>
  The calls the request layer makes, each with the schedule of its driver calls, and
  the database after a sequence of calls every one of which returns \<open>nil\<close>. A call of
  \<open>Reject\<close> is admitted when the term it names owns the identifiers.
\<close>

datatype request =
    ReqCreate faults goint goint goint
  | ReqSubmit faults ObjectID goint string goint goint goint
  | ReqApprove faults goint "ObjectID list"
  | ReqReject faults goint goint "ObjectID list"

fun serve :: "request \<Rightarrow> store \<Rightarrow> error option \<times> store" where
  "serve (ReqCreate fs year semester amount) st = Create fs year semester amount st"
| "serve (ReqSubmit fs oid now memberID year semester amount) st =
     Submit fs oid now memberID year semester amount st"
| "serve (ReqApprove fs now ids) st = Approve fs now ids st"
| "serve (ReqReject fs year semester ids) st = Reject fs year semester ids st"

fun admitted :: "request \<Rightarrow> store \<Rightarrow> bool" where
  "admitted (ReqReject fs year semester ids) st = owned_by year semester ids st"
| "admitted _ st = True"

fun served :: "request list \<Rightarrow> store \<Rightarrow> store option" where
  "served [] st = Some st"
| "served (q # qs) st =
     (if admitted q st then
        (case serve q st of (None, st') \<Rightarrow> served qs st' | (Some e, _) \<Rightarrow> None)
      else None)"

section \<open>An example database\<close>

text \<open>
  Three members. The term (2024, 1) asks for 50000 and refers to five logs: two approved
  payments of 30000 by M1, one approved payment of 20000 by M2, a direct deposit and an
  unapproved payment by M2. The term (2023, 2) refers to one more approved payment of
  5000 by M1. M3 has paid nothing.
\<close>

abbreviation term_2024_1 :: Fee where
  "term_2024_1 \<equiv> \<lparr>Year = 2024, Semester = 1, Amount_fee = 50000, Logs = [1, 2, 3, 5, 6]\<rparr>"

abbreviation term_2023_2 :: Fee where
  "term_2023_2 \<equiv> \<lparr>Year = 2023, Semester = 2, Amount_fee = 40000, Logs = [4]\<rparr>"

abbreviation club_logs :: "Log list" where
  "club_logs \<equiv>
    [\<lparr>ID = 1, MemberID = ''M1'', Type = ''approved'', Amount_log = 30000, UpdatedAt = 100\<rparr>,
     \<lparr>ID = 2, MemberID = ''M1'', Type = ''approved'', Amount_log = 30000, UpdatedAt = 200\<rparr>,
     \<lparr>ID = 3, MemberID = ''M2'', Type = ''approved'', Amount_log = 20000, UpdatedAt = 150\<rparr>,
     \<lparr>ID = 4, MemberID = ''M1'', Type = ''approved'', Amount_log = 5000, UpdatedAt = 50\<rparr>,
     \<lparr>ID = 5, MemberID = [], Type = ''direct'', Amount_log = 50000, UpdatedAt = 120\<rparr>,
     \<lparr>ID = 6, MemberID = ''M2'', Type = ''unapproved'', Amount_log = 40000, UpdatedAt = 130\<rparr>]"

abbreviation club_members :: "Member list" where
  "club_members \<equiv>
    [\<lparr>Member_ID = ''M1'', Member_Name = ''Kim''\<rparr>,
     \<lparr>Member_ID = ''M2'', Member_Name = ''Lee''\<rparr>,
     \<lparr>Member_ID = ''M3'', Member_Name = ''Park''\<rparr>]"

abbreviation club :: store where
  "club \<equiv> \<lparr>fees = [term_2024_1, term_2023_2], logs = club_logs, members = club_members\<rparr>"

section \<open>Driver calls\<close>

lemma call_Nil: "call [] = (None, [])"
  by (simp add: call_def)

lemma call_None: "call (None # r) = (None, r)"
  by (simp add: call_def)

lemma call_Some: "call (Some c # r) = (Some (DriverError c), r)"
  by (simp add: call_def)

lemma call_error: "call fs = (Some e, r) \<Longrightarrow> e \<noteq> ErrNoDocuments \<and> e \<noteq> ErrDuplicatedFee"
  by (auto simp: call_def split: list.splits option.splits)

text \<open>A cursor loop without failure runs over the whole cursor; any other run stops inside it.\<close>

lemma cursor_loop_nofault: "cursor_loop [] body acc cur = (None, [], foldl body acc cur)"
  by (induction cur arbitrary: acc) (simp_all add: Next_def Decode_def call_Nil)

lemma cursor_loop_prefix:
  "cursor_loop fs body acc cur = (e, r, acc') \<Longrightarrow> \<exists>k. acc' = foldl body acc (take k cur)"
proof (induction cur arbitrary: fs acc)
  case Nil
  then show ?case by simp
next
  case (Cons doc cur)
  show ?case
  proof (cases "Next fs")
    case n: (Pair e1 fs1)
    show ?thesis
    proof (cases e1)
      case (Some a)
      with n Cons.prems have "acc' = foldl body acc (take 0 (doc # cur))" by simp
      then show ?thesis by blast
    next
      case None
      show ?thesis
      proof (cases "Decode fs1")
        case d: (Pair e2 fs2)
        show ?thesis
        proof (cases e2)
          case (Some a)
          with n d None Cons.prems have "acc' = foldl body acc (take 0 (doc # cur))" by simp
          then show ?thesis by blast
        next
          case n2: None
          with n d None Cons.prems have "cursor_loop fs2 body (body acc doc) cur = (e, r, acc')"
            by simp
          from Cons.IH [OF this] obtain k where "acc' = foldl body (body acc doc) (take k cur)"
            by blast
          then have "acc' = foldl body acc (take (Suc k) (doc # cur))" by simp
          then show ?thesis by blast
        qed
      qed
    qed
  qed
qed

lemma cursor_loop_invariant:
  assumes "cursor_loop fs body acc cur = (e, r, acc')" and "P acc"
    and "\<And>a d. P a \<Longrightarrow> d \<in> set cur \<Longrightarrow> P (body a d)"
  shows "P acc'"
proof -
  from cursor_loop_prefix [OF assms(1)] obtain k where k: "acc' = foldl body acc (take k cur)"
    by blast
  have "P (foldl body a ds)" if "P a" "set ds \<subseteq> set cur" for a ds
    using that by (induction ds arbitrary: a) (simp_all add: assms(3))
  from this [OF assms(2), of "take k cur"] show ?thesis
    using set_take_subset [of k cur] by (simp add: k)
qed

lemma foldl_snoc: "foldl (\<lambda>xs x. xs @ [x]) acc ys = acc @ ys"
  by (induction ys arbitrary: acc) simp_all

lemma find_match_fee_None:
  "find (match_fee year semester) fs = None \<longleftrightarrow>
     \<not> (\<exists>f \<in> set fs. Year f = year \<and> Semester f = semester)"
  by (auto simp: find_None_iff match_fee_def)

lemma FindOne_fee_found:
  "find p (fees st) = Some f \<Longrightarrow> FindOne_fee fs p st \<noteq> (Inl ErrNoDocuments, r)"
  by (auto simp: FindOne_fee_def dest: call_error split: prod.splits option.splits)

section \<open>Create\<close>

lemma Create_nofault:
  "Create [] year semester amount st =
     (if \<exists>f \<in> set (fees st). Year f = year \<and> Semester f = semester
      then (Some ErrDuplicatedFee, st)
      else (None, st\<lparr>fees := fees st @
              [\<lparr>Year = year, Semester = semester, Amount_fee = amount, Logs = []\<rparr>]\<rparr>))"
proof (cases "find (match_fee year semester) (fees st)")
  case None
  then show ?thesis
    using find_match_fee_None [of year semester "fees st"]
    by (simp add: Create_def Connect_def Disconnect_def FindOne_fee_def InsertOne_fee_def
        call_Nil New_def)
next
  case (Some f)
  then show ?thesis
    using find_match_fee_None [of year semester "fees st"]
    by (simp add: Create_def Connect_def Disconnect_def FindOne_fee_def InsertOne_fee_def
        call_Nil New_def)
qed

lemma Create_keeps:
  assumes "\<exists>f \<in> set (fees st). Year f = year \<and> Semester f = semester"
  shows "snd (Create fs year semester amount st) = st"
proof -
  from assms obtain f where f: "find (match_fee year semester) (fees st) = Some f"
    using find_match_fee_None [of year semester "fees st"] by fastforce
  show ?thesis
    using FindOne_fee_found [OF f]
    by (auto simp: Create_def split: prod.splits option.splits)
qed

text \<open>
  Claim C1. When no driver call fails: if the collection \<open>fees\<close> holds a term with the
  given year and semester, \<open>Create\<close> returns \<open>ErrDuplicatedFee\<close> and leaves the database
  as it was; if it holds none, \<open>Create\<close> returns \<open>nil\<close> and appends a term with that year,
  semester and amount and with an empty \<open>logs\<close> collection, changing nothing else.
  Whatever the driver does, \<open>Create\<close> on an existing term leaves the database as it was.
\<close>

theorem Create_duplicate_or_new:
  "((\<exists>f \<in> set (fees st). Year f = year \<and> Semester f = semester) \<longrightarrow>
       Create [] year semester amount st = (Some ErrDuplicatedFee, st) \<and>
       (\<forall>fs. snd (Create fs year semester amount st) = st)) \<and>
   (\<not> (\<exists>f \<in> set (fees st). Year f = year \<and> Semester f = semester) \<longrightarrow>
       Create [] year semester amount st =
         (None, st\<lparr>fees := fees st @
            [\<lparr>Year = year, Semester = semester, Amount_fee = amount, Logs = []\<rparr>]\<rparr>))"
  using Create_nofault [of year semester amount st] Create_keeps [of st year semester]
  by simp

text \<open>
  Claim C1 at a database with the term (2024, 1): a second \<open>Create\<close> for (2024, 1) is
  refused, a \<open>Create\<close> for (2024, 2) appends the new term.
\<close>

theorem Create_duplicate_or_new_witness:
  "Create [] 2024 1 70000
     \<lparr>fees = [\<lparr>Year = 2024, Semester = 1, Amount_fee = 50000, Logs = [3]\<rparr>],
      logs = [], members = []\<rparr> =
     (Some ErrDuplicatedFee,
      \<lparr>fees = [\<lparr>Year = 2024, Semester = 1, Amount_fee = 50000, Logs = [3]\<rparr>],
       logs = [], members = []\<rparr>) \<and>
   Create [] 2024 2 70000
     \<lparr>fees = [\<lparr>Year = 2024, Semester = 1, Amount_fee = 50000, Logs = [3]\<rparr>],
      logs = [], members = []\<rparr> =
     (None,
      \<lparr>fees = [\<lparr>Year = 2024, Semester = 1, Amount_fee = 50000, Logs = [3]\<rparr>,
               \<lparr>Year = 2024, Semester = 2, Amount_fee = 70000, Logs = []\<rparr>],
       logs = [], members = []\<rparr>)"
  using
    Create_duplicate_or_new [of
      "\<lparr>fees = [\<lparr>Year = 2024, Semester = 1, Amount_fee = 50000, Logs = [3]\<rparr>],
        logs = [], members = []\<rparr>" 2024 1 70000]
    Create_duplicate_or_new [of
      "\<lparr>fees = [\<lparr>Year = 2024, Semester = 1, Amount_fee = 50000, Logs = [3]\<rparr>],
        logs = [], members = []\<rparr>" 2024 2 70000]
  by simp

section \<open>Amount\<close>

lemma foldl_plus_sum_list:
  fixes a :: goint
  shows "foldl (\<lambda>s l. s + f l) a xs = a + sum_list (map f xs)"
  by (induction xs arbitrary: a) (simp_all add: add.assoc)

lemma Amount_nofault:
  "Amount [] year semester memberID st =
     (if \<exists>f \<in> set (fees st). Year f = year \<and> Semester f = semester
      then (sum_list (map Amount_log
              (filter (\<lambda>l. MemberID l = memberID \<and> Type l = ''approved'') (logs st))), None)
      else (0, Some ErrNoDocuments))"
proof (cases "find (match_fee year semester) (fees st)")
  case None
  then show ?thesis
    using find_match_fee_None [of year semester "fees st"]
    by (simp add: Amount_def Connect_def FindOne_fee_def call_Nil)
next
  case (Some f)
  then show ?thesis
    using find_match_fee_None [of year semester "fees st"]
    by (simp add: Amount_def Connect_def Close_def Disconnect_def FindOne_fee_def Find_log_def
        call_Nil cursor_loop_nofault foldl_plus_sum_list)
qed

text \<open>
  Claim C2. When no driver call fails: without a term of the given year and semester
  \<open>Amount\<close> returns \<open>mongo.ErrNoDocuments\<close> (the specification's TermNotFound);
  with one it returns \<open>nil\<close> and the sum of \<open>amount\<close> over all the payment logs in
  storage whose \<open>member_id\<close> is the given one and whose type is \<open>approved\<close> (a sum
  in Go's \<open>int\<close>). The sum ranges over the whole collection \<open>logs\<close>: the term's \<open>logs\<close>
  collection plays no part.
\<close>

theorem Amount_sums_all_approved:
  "((\<exists>f \<in> set (fees st). Year f = year \<and> Semester f = semester) \<longrightarrow>
       Amount [] year semester memberID st =
         (sum_list (map Amount_log
            (filter (\<lambda>l. MemberID l = memberID \<and> Type l = ''approved'') (logs st))), None)) \<and>
   (\<not> (\<exists>f \<in> set (fees st). Year f = year \<and> Semester f = semester) \<longrightarrow>
       Amount [] year semester memberID st = (0, Some ErrNoDocuments))"
  using Amount_nofault [of year semester memberID st] by simp

text \<open>
  Claim C2 at the example: for the term (2024, 1) member M1 gets 65000, the 60000 of the
  term and the 5000 of the log that only the term (2023, 2) refers to; for the missing
  term (2025, 1) the answer is \<open>mongo.ErrNoDocuments\<close>.
\<close>

theorem Amount_sums_all_approved_witness:
  "Amount [] 2024 1 ''M1'' club = (65000, None) \<and>
   Amount [] 2025 1 ''M1'' club = (0, Some ErrNoDocuments)"
  using Amount_sums_all_approved [of club 2024 1 "''M1''"]
    Amount_sums_all_approved [of club 2025 1 "''M1''"]
  by simp

section \<open>Dones and Yets\<close>

lemma map_of_add_amount:
  "map_of (add_amount k v m) =
     (map_of m)(k \<mapsto> (case map_of m k of None \<Rightarrow> v | Some a \<Rightarrow> a + v))"
  by (induction m) (auto simp: fun_eq_iff)

lemma keys_add_amount: "fst ` set (add_amount k v m) = insert k (fst ` set m)"
  by (induction m) (force split: if_splits)+

lemma distinct_add_amount:
  "distinct (map fst m) \<Longrightarrow> distinct (map fst (add_amount k v m))"
proof (induction m)
  case Nil
  then show ?case by simp
next
  case (Cons p m)
  obtain k' a where p: "p = (k', a)" by (cases p)
  show ?case
  proof (cases "k' = k")
    case True
    with Cons.prems p show ?thesis by simp
  next
    case False
    have "k' \<notin> fst ` set (add_amount k v m)"
      using Cons.prems p False by (simp add: keys_add_amount)
    with Cons p False show ?thesis by simp
  qed
qed

lemma amounts_loop_snoc:
  "amounts_loop (ls @ [l]) = add_amount (MemberID l) (Amount_log l) (amounts_loop ls)"
  by (simp add: amounts_loop_def)

lemma distinct_amounts_loop: "distinct (map fst (amounts_loop ls))"
proof (induction ls rule: rev_induct)
  case Nil
  show ?case by (simp add: amounts_loop_def)
next
  case (snoc l ls)
  then show ?case by (simp add: amounts_loop_snoc distinct_add_amount)
qed

text \<open>The map holds one entry per member of the cursor's logs: the sum of that member's amounts.\<close>

lemma map_of_amounts_loop:
  "map_of (amounts_loop ls) m =
     (if m \<in> MemberID ` set ls
      then Some (sum_list (map Amount_log (filter (\<lambda>l. MemberID l = m) ls)))
      else None)"
proof (induction ls rule: rev_induct)
  case Nil
  show ?case by (simp add: amounts_loop_def)
next
  case (snoc l ls)
  have "filter (\<lambda>x. MemberID x = m) ls = []" if "m \<notin> MemberID ` set ls"
    using that by (auto simp: filter_empty_conv)
  with snoc show ?case
    by (auto simp: amounts_loop_snoc map_of_add_amount split: if_splits)
qed

lemma amounts_loop_entry:
  "(m, a) \<in> set (amounts_loop ls) \<longleftrightarrow>
     m \<in> MemberID ` set ls \<and> a = sum_list (map Amount_log (filter (\<lambda>l. MemberID l = m) ls))"
proof -
  have "(m, a) \<in> set (amounts_loop ls) \<longleftrightarrow> map_of (amounts_loop ls) m = Some a"
    using distinct_amounts_loop [of ls] by simp
  then show ?thesis by (auto simp: map_of_amounts_loop)
qed

lemma selected_keys:
  "m \<in> set (map fst (filter (\<lambda>(membID, amount). P amount) (amounts_loop ls))) \<longleftrightarrow>
     m \<in> set (map MemberID ls) \<and>
     P (sum_list (map Amount_log (filter (\<lambda>l. MemberID l = m) ls)))"
proof -
  have "m \<in> set (map fst (filter (\<lambda>(membID, amount). P amount) (amounts_loop ls))) \<longleftrightarrow>
        (\<exists>a. (m, a) \<in> set (amounts_loop ls) \<and> P a)"
    by force
  then show ?thesis by (auto simp: amounts_loop_entry)
qed

lemma Dones_found:
  assumes "find (match_fee year semester) (fees st) = Some fee"
  shows "Dones [] year semester st = (ComputePaid fee st, None)"
proof -
  have "filter (\<lambda>m. Member_ID m \<in> set (map fst (filter (\<lambda>(membID, amount).
            sint (Amount_fee fee) \<le> sint amount) (amounts_loop (approved_of_term fee st)))))
          (members st) = ComputePaid fee st"
    unfolding ComputePaid_def summed_amount_def
    by (rule filter_cong [OF refl]) (simp only: selected_keys)
  then show ?thesis
    using assms
    by (simp add: Dones_def Connect_def Close_def Disconnect_def FindOne_fee_def Find_log_def
        Find_member_def call_Nil cursor_loop_nofault foldl_snoc amounts_loop_def [symmetric]
        approved_of_term_def Let_def)
qed

lemma Dones_missing:
  assumes "find (match_fee year semester) (fees st) = None"
  shows "Dones [] year semester st = ([], Some ErrNoDocuments)"
  using assms by (simp add: Dones_def Connect_def FindOne_fee_def call_Nil)

lemma Yets_found:
  assumes "find (match_fee year semester) (fees st) = Some fee"
  shows "Yets [] year semester st = (ComputeUnpaid fee st, None)"
proof -
  have "filter (\<lambda>m. Member_ID m \<in> set (map fst (filter (\<lambda>(membID, amount).
            sint amount < sint (Amount_fee fee)) (amounts_loop (approved_of_term fee st)))))
          (members st) = ComputeUnpaid fee st"
    unfolding ComputeUnpaid_def summed_amount_def
    by (rule filter_cong [OF refl]) (simp only: selected_keys)
  then show ?thesis
    using assms
    by (simp add: Yets_def Connect_def Close_def Disconnect_def FindOne_fee_def Find_log_def
        Find_member_def call_Nil cursor_loop_nofault foldl_snoc amounts_loop_def [symmetric]
        approved_of_term_def Let_def)
qed

lemma ComputePaid_positive:
  assumes "0 < sint (Amount_fee fee)"
  shows "ComputePaid fee st =
     filter (\<lambda>mb. sint (Amount_fee fee) \<le> sint (summed_amount fee st (Member_ID mb)))
       (members st)"
  unfolding ComputePaid_def
proof (rule filter_cong [OF refl])
  fix mb
  have "summed_amount fee st (Member_ID mb) = 0"
    if "Member_ID mb \<notin> set (map MemberID (approved_of_term fee st))"
  proof -
    from that have "filter (\<lambda>l. MemberID l = Member_ID mb) (approved_of_term fee st) = []"
      by (auto simp: filter_empty_conv image_iff)
    then show ?thesis by (simp add: summed_amount_def)
  qed
  then have "\<not> sint (Amount_fee fee) \<le> sint (summed_amount fee st (Member_ID mb))"
    if "Member_ID mb \<notin> set (map MemberID (approved_of_term fee st))"
    using that assms by simp
  then show "(Member_ID mb \<in> set (map MemberID (approved_of_term fee st)) \<and>
          sint (Amount_fee fee) \<le> sint (summed_amount fee st (Member_ID mb))) =
        (sint (Amount_fee fee) \<le> sint (summed_amount fee st (Member_ID mb)))"
    by blast
qed

text \<open>
  Claim C3. When no driver call fails: without a term of the given year and semester
  \<open>Dones\<close> returns \<open>mongo.ErrNoDocuments\<close> (TermNotFound); with one (\<open>fee\<close>, the first
  document of \<open>fees\<close> with that year and semester) it returns \<open>nil\<close> and exactly the
  member records whose \<open>id\<close> is among the \<open>member_id\<close>s \<open>m\<close> of the term's approved logs
  (the logs with identifier in \<open>Logs fee\<close> and type \<open>approved\<close>) for which the sum of
  \<open>amount\<close> over the term's approved logs of \<open>m\<close> is at least the term's amount. Sums
  and comparison are those of Go's \<open>int\<close>. For a term with a positive amount these are
  the member records whose summed amount is at least the term's amount, the sum of a
  member without approved logs being 0.
\<close>

theorem Dones_is_ComputePaid:
  "(\<forall>fee. find (match_fee year semester) (fees st) = Some fee \<longrightarrow>
       Dones [] year semester st = (ComputePaid fee st, None) \<and>
       (0 < sint (Amount_fee fee) \<longrightarrow>
          Dones [] year semester st =
            (filter (\<lambda>mb. sint (Amount_fee fee) \<le> sint (summed_amount fee st (Member_ID mb)))
               (members st), None))) \<and>
   (\<not> (\<exists>f \<in> set (fees st). Year f = year \<and> Semester f = semester) \<longrightarrow>
       Dones [] year semester st = ([], Some ErrNoDocuments))"
  using Dones_found [of year semester st] Dones_missing [of year semester st]
    find_match_fee_None [of year semester "fees st"] ComputePaid_positive [of _ st]
  by simp

text \<open>
  Claim C3 at the example: M1 has paid 60000 of the 50000 of the term (2024, 1), M2 only
  20000 in approved logs; a term (2025, 1) does not exist.
\<close>

theorem Dones_is_ComputePaid_witness:
  "Dones [] 2024 1 club = ([\<lparr>Member_ID = ''M1'', Member_Name = ''Kim''\<rparr>], None) \<and>
   Dones [] 2025 1 club = ([], Some ErrNoDocuments)"
  using Dones_is_ComputePaid [of 2024 1 club] Dones_is_ComputePaid [of 2025 1 club]
  by (simp add: match_fee_def ComputePaid_def approved_of_term_def summed_amount_def)

text \<open>
  Whatever the driver does, the keys of the map come from logs of the cursor, and the
  members returned from the second cursor.
\<close>

lemma amounts_keys:
  assumes "cursor_loop fs (\<lambda>amounts log. add_amount (MemberID log) (Amount_log log) amounts)
             [] cur = (e, r, amounts)"
  shows "fst ` set amounts \<subseteq> MemberID ` set cur"
  by (rule cursor_loop_invariant [OF assms]) (auto simp: keys_add_amount)

lemma appended_members:
  assumes "cursor_loop fs (\<lambda>membs memb. membs @ [memb]) [] cur2 = (e, r, membs)"
  shows "set membs \<subseteq> set cur2"
  by (rule cursor_loop_invariant [OF assms]) auto

lemma Dones_has_log:
  assumes "find (match_fee year semester) (fees st) = Some fee"
    and "mb \<in> set (fst (Dones fs year semester st))"
  shows "mb \<in> set (members st) \<and>
     (\<exists>l \<in> set (logs st). ID l \<in> set (Logs fee) \<and> Type l = ''approved'' \<and>
                          MemberID l = Member_ID mb)"
  using assms
  by (fastforce simp: Dones_def FindOne_fee_def Find_log_def Find_member_def Let_def
      split: prod.splits option.splits sum.splits
      dest!: amounts_keys appended_members)

lemma Yets_has_log:
  assumes "find (match_fee year semester) (fees st) = Some fee"
    and "mb \<in> set (fst (Yets fs year semester st))"
  shows "mb \<in> set (members st) \<and>
     (\<exists>l \<in> set (logs st). ID l \<in> set (Logs fee) \<and> Type l = ''approved'' \<and>
                          MemberID l = Member_ID mb)"
  using assms
  by (fastforce simp: Yets_def FindOne_fee_def Find_log_def Find_member_def Let_def
      split: prod.splits option.splits sum.splits
      dest!: amounts_keys appended_members)

text \<open>
  Claim C4. Let \<open>fee\<close> be the term of the given year and semester. When no driver call
  fails, \<open>Yets\<close> returns \<open>nil\<close> and exactly the member records whose \<open>id\<close> is among the
  \<open>member_id\<close>s of the term's approved logs and whose summed approved amount for the
  term is strictly less than the term's amount. Whatever the driver does, every member
  that \<open>Dones\<close> or \<open>Yets\<close> returns is a member record with at least one approved log in
  the term's \<open>logs\<close> collection; so a member with no approved log there is in neither
  result.
\<close>

theorem Yets_is_ComputeUnpaid:
  assumes "find (match_fee year semester) (fees st) = Some fee"
  shows "Yets [] year semester st = (ComputeUnpaid fee st, None) \<and>
     set (fst (Dones fs year semester st)) \<union> set (fst (Yets fs' year semester st)) \<subseteq>
       {mb \<in> set (members st).
          \<exists>l \<in> set (logs st). ID l \<in> set (Logs fee) \<and> Type l = ''approved'' \<and>
                               MemberID l = Member_ID mb} \<and>
     (\<forall>mb. \<not> (\<exists>l \<in> set (logs st). ID l \<in> set (Logs fee) \<and> Type l = ''approved'' \<and>
                                   MemberID l = Member_ID mb) \<longrightarrow>
          mb \<notin> set (fst (Dones fs year semester st)) \<and>
          mb \<notin> set (fst (Yets fs' year semester st)))"
proof (intro conjI)
  show "Yets [] year semester st = (ComputeUnpaid fee st, None)"
    using assms by (rule Yets_found)
  show "set (fst (Dones fs year semester st)) \<union> set (fst (Yets fs' year semester st)) \<subseteq>
       {mb \<in> set (members st).
          \<exists>l \<in> set (logs st). ID l \<in> set (Logs fee) \<and> Type l = ''approved'' \<and>
                               MemberID l = Member_ID mb}"
    using Dones_has_log [OF assms] Yets_has_log [OF assms] by blast
  show "\<forall>mb. \<not> (\<exists>l \<in> set (logs st). ID l \<in> set (Logs fee) \<and> Type l = ''approved'' \<and>
                                   MemberID l = Member_ID mb) \<longrightarrow>
          mb \<notin> set (fst (Dones fs year semester st)) \<and>
          mb \<notin> set (fst (Yets fs' year semester st))"
    using Dones_has_log [OF assms] Yets_has_log [OF assms] by blast
qed

text \<open>
  Claim C4 at the example: for the term (2024, 1) \<open>Yets\<close> returns M2 alone (20000 in
  approved logs, below 50000), and M3, who has no approved log, is neither in the result
  of \<open>Yets\<close> nor in that of \<open>Dones\<close>.
\<close>

theorem Yets_is_ComputeUnpaid_witness:
  "find (match_fee 2024 1) (fees club) = Some term_2024_1 \<and>
   Yets [] 2024 1 club = ([\<lparr>Member_ID = ''M2'', Member_Name = ''Lee''\<rparr>], None) \<and>
   \<lparr>Member_ID = ''M3'', Member_Name = ''Park''\<rparr> \<notin> set (fst (Dones [] 2024 1 club)) \<and>
   \<lparr>Member_ID = ''M3'', Member_Name = ''Park''\<rparr> \<notin> set (fst (Yets [] 2024 1 club))"
proof -
  have f: "find (match_fee 2024 1) (fees club) = Some term_2024_1"
    by (simp add: match_fee_def)
  have y: "ComputeUnpaid term_2024_1 club = [\<lparr>Member_ID = ''M2'', Member_Name = ''Lee''\<rparr>]"
    by (simp add: ComputeUnpaid_def approved_of_term_def summed_amount_def)
  have z: "\<not> (\<exists>l \<in> set (logs club). ID l \<in> set (Logs term_2024_1) \<and> Type l = ''approved'' \<and>
              MemberID l = Member_ID \<lparr>Member_ID = ''M3'', Member_Name = ''Park''\<rparr>)"
    by simp
  from Yets_is_ComputeUnpaid [OF f, of "[]" "[]"] f y z show ?thesis
    by simp
qed

section \<open>All\<close>

lemma All_logs_found:
  assumes "find (match_fee year semester) (fees st) = Some fee"
  shows "\<exists>ls. All_logs [] year semester st = (ls, None) \<and>
           mset ls = mset (filter (\<lambda>l. ID l \<in> set (Logs fee) \<and>
                          (Type l = ''approved'' \<or> Type l = ''direct'')) (logs st)) \<and>
           sorted (map (\<lambda>l. sint (UpdatedAt l)) ls)"
  using assms
  by (simp add: All_logs_def Connect_def Close_def Disconnect_def FindOne_fee_def Find_log_def
      call_Nil cursor_loop_nofault foldl_snoc)

lemma All_logs_missing:
  assumes "find (match_fee year semester) (fees st) = None"
  shows "All_logs [] year semester st = ([], Some ErrNoDocuments)"
  using assms by (simp add: All_logs_def Connect_def FindOne_fee_def call_Nil)

text \<open>
  Claim C5. When no driver call fails: without a term of the given year and semester
  \<open>All\<close> returns \<open>mongo.ErrNoDocuments\<close> (TermNotFound); with one (\<open>fee\<close>) it returns
  \<open>nil\<close> and a sequence that holds exactly the payment logs with identifier in the
  term's \<open>logs\<close> collection and type \<open>approved\<close> or \<open>direct\<close>, each as often as the
  collection \<open>logs\<close> holds it, in ascending order of \<open>updated_at\<close> (as a signed integer).
  An unapproved log is not in the sequence.
\<close>

theorem All_logs_approved_or_direct_sorted:
  "(\<forall>fee. find (match_fee year semester) (fees st) = Some fee \<longrightarrow>
      (\<exists>ls. All_logs [] year semester st = (ls, None) \<and>
         mset ls = mset (filter (\<lambda>l. ID l \<in> set (Logs fee) \<and>
                        (Type l = ''approved'' \<or> Type l = ''direct'')) (logs st)) \<and>
         sorted (map (\<lambda>l. sint (UpdatedAt l)) ls) \<and>
         (\<forall>l \<in> set ls. Type l \<noteq> ''unapproved''))) \<and>
   (\<not> (\<exists>f \<in> set (fees st). Year f = year \<and> Semester f = semester) \<longrightarrow>
      All_logs [] year semester st = ([], Some ErrNoDocuments))"
proof (intro conjI allI impI)
  fix fee assume f: "find (match_fee year semester) (fees st) = Some fee"
  from All_logs_found [OF f] obtain ls where ls:
    "All_logs [] year semester st = (ls, None)"
    "mset ls = mset (filter (\<lambda>l. ID l \<in> set (Logs fee) \<and>
                        (Type l = ''approved'' \<or> Type l = ''direct'')) (logs st))"
    "sorted (map (\<lambda>l. sint (UpdatedAt l)) ls)" by blast
  from ls(2) have "set ls = set (filter (\<lambda>l. ID l \<in> set (Logs fee) \<and>
                        (Type l = ''approved'' \<or> Type l = ''direct'')) (logs st))"
    by (rule mset_eq_setD)
  then have "\<forall>l \<in> set ls. Type l \<noteq> ''unapproved''" by auto
  with ls show "\<exists>ls. All_logs [] year semester st = (ls, None) \<and>
         mset ls = mset (filter (\<lambda>l. ID l \<in> set (Logs fee) \<and>
                        (Type l = ''approved'' \<or> Type l = ''direct'')) (logs st)) \<and>
         sorted (map (\<lambda>l. sint (UpdatedAt l)) ls) \<and>
         (\<forall>l \<in> set ls. Type l \<noteq> ''unapproved'')" by blast
next
  assume "\<not> (\<exists>f \<in> set (fees st). Year f = year \<and> Semester f = semester)"
  then show "All_logs [] year semester st = ([], Some ErrNoDocuments)"
    using find_match_fee_None [of year semester "fees st"] All_logs_missing by simp
qed

text \<open>
  Claim C5 at the example: of the five logs of the term (2024, 1) the unapproved one is
  left out, and the other four come in the order of their time stamps 100, 120, 150, 200.
\<close>

theorem All_logs_approved_or_direct_sorted_witness:
  "find (match_fee 2024 1) (fees club) = Some term_2024_1 \<and>
   map ID (fst (All_logs [] 2024 1 club)) = [1, 5, 3, 2] \<and>
   snd (All_logs [] 2024 1 club) = None \<and>
   mset (fst (All_logs [] 2024 1 club)) =
     mset (filter (\<lambda>l. ID l \<in> set (Logs term_2024_1) \<and>
                       (Type l = ''approved'' \<or> Type l = ''direct'')) club_logs) \<and>
   sorted (map (\<lambda>l. sint (UpdatedAt l)) (fst (All_logs [] 2024 1 club))) \<and>
   All_logs [] 2025 1 club = ([], Some ErrNoDocuments)"
proof -
  have f: "find (match_fee 2024 1) (fees club) = Some term_2024_1"
    by (simp add: match_fee_def)
  have e: "map ID (fst (All_logs [] 2024 1 club)) = [1, 5, 3, 2]"
    by (simp add: All_logs_def Connect_def Close_def Disconnect_def FindOne_fee_def
        Find_log_def call_Nil cursor_loop_nofault foldl_snoc match_fee_def
        del: cursor_loop.simps)
  from All_logs_approved_or_direct_sorted [of 2024 1 club] f
    All_logs_approved_or_direct_sorted [of 2025 1 club] e
  show ?thesis by auto
qed

section \<open>Approve\<close>

lemma Approve_nofault:
  "Approve [] now ids st =
     (None, st\<lparr>logs := map (\<lambda>l. if ID l \<in> set ids
                 then l\<lparr>Type := ''approved'', UpdatedAt := now\<rparr> else l) (logs st)\<rparr>)"
  by (simp add: Approve_def Connect_def Disconnect_def UpdateMany_log_def call_Nil)

text \<open>The one \<open>UpdateMany\<close> either changes all the logs it matches or, failing, none.\<close>

lemma Approve_faults:
  "snd (Approve fs now ids st) = st \<or> snd (Approve fs now ids st) = snd (Approve [] now ids st)"
  by (simp add: Approve_def Connect_def Disconnect_def UpdateMany_log_def call_Nil
      split: prod.splits option.splits)

lemma Approve_empty: "Approve [] now [] st = (None, st)"
  by (simp add: Approve_nofault)

text \<open>
  Claim C7, as stated, fails: \<open>updated_at\<close> is the Unix time in seconds. M1 submits a
  payment for the term (2024, 1) at second 100, the log gets the identifier 7 and the
  time stamp 100; it is approved within the same second and keeps the time stamp 100,
  which is not strictly greater than before.
\<close>

theorem Approve_same_second_counterexample:
  "Submit [] 7 100 ''M1'' 2024 1 30000
     \<lparr>fees = [\<lparr>Year = 2024, Semester = 1, Amount_fee = 50000, Logs = []\<rparr>],
      logs = [], members = []\<rparr> =
     (None,
      \<lparr>fees = [\<lparr>Year = 2024, Semester = 1, Amount_fee = 50000, Logs = [7]\<rparr>],
       logs = [\<lparr>ID = 7, MemberID = ''M1'', Type = ''unapproved'', Amount_log = 30000,
                UpdatedAt = 100\<rparr>],
       members = []\<rparr>) \<and>
   Approve [] 100 [7]
     \<lparr>fees = [\<lparr>Year = 2024, Semester = 1, Amount_fee = 50000, Logs = [7]\<rparr>],
      logs = [\<lparr>ID = 7, MemberID = ''M1'', Type = ''unapproved'', Amount_log = 30000,
               UpdatedAt = 100\<rparr>],
      members = []\<rparr> =
     (None,
      \<lparr>fees = [\<lparr>Year = 2024, Semester = 1, Amount_fee = 50000, Logs = [7]\<rparr>],
       logs = [\<lparr>ID = 7, MemberID = ''M1'', Type = ''approved'', Amount_log = 30000,
                UpdatedAt = 100\<rparr>],
       members = []\<rparr>) \<and>
   \<not> sint (UpdatedAt \<lparr>ID = 7, MemberID = ''M1'', Type = ''unapproved'', Amount_log = 30000,
                       UpdatedAt = 100\<rparr>)
      < sint (UpdatedAt (hd (logs (snd (Approve [] 100 [7]
          \<lparr>fees = [\<lparr>Year = 2024, Semester = 1, Amount_fee = 50000, Logs = [7]\<rparr>],
           logs = [\<lparr>ID = 7, MemberID = ''M1'', Type = ''unapproved'', Amount_log = 30000,
                    UpdatedAt = 100\<rparr>],
           members = []\<rparr>)))))"
  by (simp add: Approve_nofault Submit_def Connect_def Disconnect_def InsertOne_log_def
      UpdateOne_fee_def call_Nil NewLog_def match_fee_def push_logs_def)

text \<open>
  Claim C7, amended. When no driver call fails, \<open>Approve\<close> returns \<open>nil\<close> and keeps the
  collection \<open>logs\<close> in place, log for log; every log whose identifier is in \<open>ids\<close> then
  has the type \<open>approved\<close>, whether it was approved before or not, and the time stamp
  \<open>now\<close>, the Unix time in seconds of the call. The time stamp of such a log has
  strictly increased exactly when \<open>now\<close> is later than the old time stamp; it stays the
  same when the approval falls into the second of the old one. The update is one
  batch: under every schedule of driver failures the database afterwards is either the
  old one or the one with all the matching logs updated.
\<close>

theorem Approve_sets_type_and_time:
  "\<exists>st'. Approve [] now ids st = (None, st') \<and>
     length (logs st') = length (logs st) \<and>
     (\<forall>i < length (logs st). ID (logs st ! i) \<in> set ids \<longrightarrow>
        ID (logs st' ! i) = ID (logs st ! i) \<and>
        Type (logs st' ! i) = ''approved'' \<and>
        UpdatedAt (logs st' ! i) = now \<and>
        (sint (UpdatedAt (logs st ! i)) < sint (UpdatedAt (logs st' ! i)) \<longleftrightarrow>
           sint (UpdatedAt (logs st ! i)) < sint now) \<and>
        (UpdatedAt (logs st ! i) = now \<longrightarrow> UpdatedAt (logs st' ! i) = UpdatedAt (logs st ! i))) \<and>
     (\<forall>fs. snd (Approve fs now ids st) = st \<or> snd (Approve fs now ids st) = st')"
  using Approve_faults [of _ now ids st]
  by (simp add: Approve_nofault)

text \<open>
  Claim C7, amended, at the example: approving the unapproved log 6 and the approved
  log 1 at second 130 leaves both approved and stamped 130; the stamp of log 1 has
  grown from 100, that of log 6 was 130 already.
\<close>

theorem Approve_sets_type_and_time_witness:
  "fst (Approve [] 130 [6, 1] club) = None \<and>
   map ID (logs (snd (Approve [] 130 [6, 1] club))) = [1, 2, 3, 4, 5, 6] \<and>
   Type (logs (snd (Approve [] 130 [6, 1] club)) ! 0) = ''approved'' \<and>
   UpdatedAt (logs (snd (Approve [] 130 [6, 1] club)) ! 0) = 130 \<and>
   Type (logs (snd (Approve [] 130 [6, 1] club)) ! 5) = ''approved'' \<and>
   UpdatedAt (logs (snd (Approve [] 130 [6, 1] club)) ! 5) = 130 \<and>
   UpdatedAt (logs club ! 5) = 130"
proof -
  from Approve_sets_type_and_time [of 130 "[6, 1]" club] obtain st' where
    a: "Approve [] 130 [6, 1] club = (None, st')" and
    l: "length (logs st') = length (logs club)" and
    i: "\<forall>i < length (logs club). ID (logs club ! i) \<in> set [6, 1] \<longrightarrow>
          ID (logs st' ! i) = ID (logs club ! i) \<and> Type (logs st' ! i) = ''approved'' \<and>
          UpdatedAt (logs st' ! i) = 130"
    by blast
  from i have "Type (logs st' ! 0) = ''approved'' \<and> UpdatedAt (logs st' ! 0) = 130"
    by simp
  moreover from i have "Type (logs st' ! 5) = ''approved'' \<and> UpdatedAt (logs st' ! 5) = 130"
    by simp
  moreover have "map ID (logs (snd (Approve [] 130 [6, 1] club))) = [1, 2, 3, 4, 5, 6]"
    by (simp add: Approve_nofault)
  ultimately show ?thesis using a by simp
qed

lemma Approve_frame_logs:
  fixes ls :: "Log list"
  shows "map ID (map (\<lambda>l. if ID l \<in> set ids
            then l\<lparr>Type := ''approved'', UpdatedAt := now\<rparr> else l) ls) = map ID ls \<and>
         map MemberID (map (\<lambda>l. if ID l \<in> set ids
            then l\<lparr>Type := ''approved'', UpdatedAt := now\<rparr> else l) ls) = map MemberID ls \<and>
         map Amount_log (map (\<lambda>l. if ID l \<in> set ids
            then l\<lparr>Type := ''approved'', UpdatedAt := now\<rparr> else l) ls) = map Amount_log ls \<and>
         (\<forall>i < length ls. ID (ls ! i) \<notin> set ids \<longrightarrow>
            map (\<lambda>l. if ID l \<in> set ids
              then l\<lparr>Type := ''approved'', UpdatedAt := now\<rparr> else l) ls ! i = ls ! i)"
  by (induction ls) (auto simp: nth_Cons split: nat.splits)

text \<open>
  Claim C10. Under every schedule of driver failures, \<open>Approve\<close> leaves the collections
  \<open>fees\<close> and \<open>members\<close> as they were and keeps the collection \<open>logs\<close> in place, log
  for log, with the \<open>_id\<close>, the \<open>member_id\<close> and the \<open>amount\<close> of every log; a log
  whose identifier is not in \<open>ids\<close> is unchanged altogether. With an empty \<open>ids\<close> and no
  driver failure, \<open>Approve\<close> returns \<open>nil\<close> and the database is the one before.
\<close>

theorem Approve_frame:
  "fees (snd (Approve fs now ids st)) = fees st \<and>
   members (snd (Approve fs now ids st)) = members st \<and>
   map ID (logs (snd (Approve fs now ids st))) = map ID (logs st) \<and>
   map MemberID (logs (snd (Approve fs now ids st))) = map MemberID (logs st) \<and>
   map Amount_log (logs (snd (Approve fs now ids st))) = map Amount_log (logs st) \<and>
   (\<forall>i < length (logs st). ID (logs st ! i) \<notin> set ids \<longrightarrow>
      logs (snd (Approve fs now ids st)) ! i = logs st ! i) \<and>
   Approve [] now [] st = (None, st)"
proof -
  from Approve_faults [of fs now ids st]
  consider "snd (Approve fs now ids st) = st"
    | "snd (Approve fs now ids st) = st\<lparr>logs := map (\<lambda>l. if ID l \<in> set ids
          then l\<lparr>Type := ''approved'', UpdatedAt := now\<rparr> else l) (logs st)\<rparr>"
    by (auto simp: Approve_nofault)
  then show ?thesis
  proof cases
    case 1
    then show ?thesis by (simp add: Approve_empty)
  next
    case 2
    then show ?thesis
      using Approve_frame_logs [of ids now "logs st"] by (simp add: Approve_empty)
  qed
qed

text \<open>
  Claim C10 at the example: approving log 6 leaves the terms, the members and the logs
  1 to 5 as they were, and log 6 keeps its identifier, member and amount.
\<close>

theorem Approve_frame_witness:
  "fees (snd (Approve [] 300 [6] club)) = fees club \<and>
   members (snd (Approve [] 300 [6] club)) = members club \<and>
   map ID (logs (snd (Approve [] 300 [6] club))) = [1, 2, 3, 4, 5, 6] \<and>
   map MemberID (logs (snd (Approve [] 300 [6] club))) =
     [''M1'', ''M1'', ''M2'', ''M1'', [], ''M2''] \<and>
   map Amount_log (logs (snd (Approve [] 300 [6] club))) =
     [30000, 30000, 20000, 5000, 50000, 40000] \<and>
   logs (snd (Approve [] 300 [6] club)) ! 4 = club_logs ! 4 \<and>
   Approve [] 300 [] club = (None, club)"
proof -
  note t = Approve_frame [of "[]" 300 "[6]" club]
  from t have u: "\<forall>i < length (logs club). ID (logs club ! i) \<notin> set [6] \<longrightarrow>
      logs (snd (Approve [] 300 [6] club)) ! i = logs club ! i"
    by blast
  have "logs (snd (Approve [] 300 [6] club)) ! 4 = club_logs ! 4"
    using u [rule_format, of 4] by simp
  moreover have "Approve [] 300 [] club = (None, club)"
    using Approve_frame [of "[]" 300 "[]" club] by blast
  moreover from t have "fees (snd (Approve [] 300 [6] club)) = fees club" by blast
  moreover from t have "members (snd (Approve [] 300 [6] club)) = members club" by blast
  moreover from t have "map ID (logs (snd (Approve [] 300 [6] club))) = map ID (logs club)"
    by blast
  moreover from t have
    "map MemberID (logs (snd (Approve [] 300 [6] club))) = map MemberID (logs club)"
    by blast
  moreover from t have
    "map Amount_log (logs (snd (Approve [] 300 [6] club))) = map Amount_log (logs club)"
    by blast
  ultimately show ?thesis by simp
qed

section \<open>Reject\<close>

lemma find_update_first:
  assumes "\<And>x. p (u x) = p x"
  shows "find p (update_first p u xs) = map_option u (find p xs)"
  using assms by (induction xs) auto

lemma match_fee_pull_logs: "match_fee y s (pull_logs oid f) = match_fee y s f"
  by (simp add: match_fee_def pull_logs_def)

lemma set_delete_first: "set (delete_first p xs) \<subseteq> set xs"
  by (induction xs) auto

lemma distinct_delete_first:
  "distinct (map f xs) \<Longrightarrow> distinct (map f (delete_first p xs))"
proof (induction xs)
  case Nil
  then show ?case by simp
next
  case (Cons x xs)
  then show ?case
    using set_delete_first [of p xs] by auto
qed

lemma delete_first_gone:
  "distinct (map f xs) \<Longrightarrow> k \<notin> f ` set (delete_first (\<lambda>x. f x = k) xs)"
  by (induction xs) auto

text \<open>One round of the loop without failure, and the loop over a prefix.\<close>

lemma Reject_loop_Cons_ok:
  "Reject_loop (None # None # fs) y s (oid # ids) st =
     Reject_loop fs y s ids (reject_one y s st oid)"
  by (simp add: UpdateOne_fee_def DeleteOne_log_def call_None reject_one_def)

lemma Reject_loop_Nil_faults:
  "Reject_loop [] y s ids st = (None, [], foldl (reject_one y s) st ids)"
  by (induction ids arbitrary: st)
     (simp_all add: UpdateOne_fee_def DeleteOne_log_def call_Nil reject_one_def)

lemma Reject_loop_prefix:
  "Reject_loop (replicate (2 * length pre) None @ fs) y s (pre @ ids) st =
     Reject_loop fs y s ids (foldl (reject_one y s) st pre)"
  by (induction pre arbitrary: st) (simp_all add: Reject_loop_Cons_ok del: Reject_loop.simps)

lemma Reject_loop_pull_fails:
  "Reject_loop (Some c # fs) y s (oid # ids) st = (Some (DriverError c), fs, st)"
  by (simp add: UpdateOne_fee_def call_Some)

lemma Reject_loop_delete_fails:
  "Reject_loop (None # Some c # fs) y s (oid # ids) st =
     (Some (DriverError c), fs,
      st\<lparr>fees := update_first (match_fee y s) (pull_logs oid) (fees st)\<rparr>)"
  by (simp add: UpdateOne_fee_def DeleteOne_log_def call_Some call_None)

lemma Reject_pull_fails:
  "Reject (None # replicate (2 * length pre) None @ Some c # fs) y s (pre @ oid # post) st =
     (Some (DriverError c), foldl (reject_one y s) st pre)"
  by (simp add: Reject_def Connect_def call_None Reject_loop_prefix Reject_loop_pull_fails
      del: Reject_loop.simps)

lemma Reject_delete_fails:
  "Reject (None # replicate (2 * length pre) None @ None # Some c # fs) y s (pre @ oid # post) st =
     (Some (DriverError c),
      (foldl (reject_one y s) st pre)\<lparr>fees := update_first (match_fee y s) (pull_logs oid)
          (fees (foldl (reject_one y s) st pre))\<rparr>)"
  by (simp add: Reject_def Connect_def call_None Reject_loop_prefix Reject_loop_delete_fails
      del: Reject_loop.simps)

lemma Reject_nofault: "Reject [] y s ids st = (None, foldl (reject_one y s) st ids)"
  by (simp add: Reject_def Connect_def Disconnect_def call_Nil Reject_loop_Nil_faults)

text \<open>A run that returns \<open>nil\<close> has rejected every identifier.\<close>

lemma Reject_loop_success:
  "Reject_loop fs y s ids st = (None, r, st') \<Longrightarrow> st' = foldl (reject_one y s) st ids"
proof (induction ids arbitrary: fs st)
  case Nil
  then show ?case by simp
next
  case (Cons oid ids)
  from Cons.prems obtain fs2 where
    "Reject_loop fs2 y s ids (reject_one y s st oid) = (None, r, st')"
    by (auto simp: UpdateOne_fee_def DeleteOne_log_def reject_one_def
        split: prod.splits option.splits)
  from Cons.IH [OF this] show ?case by simp
qed

lemma Reject_success:
  "Reject fs y s ids st = (None, st') \<Longrightarrow> st' = foldl (reject_one y s) st ids"
  by (auto simp: Reject_def split: prod.splits option.splits dest: Reject_loop_success)

lemma ids_reject_one: "ID ` set (logs (reject_one y s st oid)) \<subseteq> ID ` set (logs st)"
  using set_delete_first [of "\<lambda>l. ID l = oid" "logs st"] by (auto simp: reject_one_def)

lemma distinct_reject_one:
  "distinct (map ID (logs st)) \<Longrightarrow> distinct (map ID (logs (reject_one y s st oid)))"
  by (simp add: reject_one_def distinct_delete_first)

lemma find_reject_one:
  "find (match_fee y s) (fees (reject_one y s st oid)) =
     map_option (pull_logs oid) (find (match_fee y s) (fees st))"
  by (simp add: reject_one_def find_update_first match_fee_pull_logs)

lemma foldl_reject_one_logs:
  "ID ` set (logs (foldl (reject_one y s) st ids)) \<subseteq> ID ` set (logs st)"
proof (induction ids arbitrary: st)
  case Nil
  show ?case by simp
next
  case (Cons oid ids)
  show ?case using Cons.IH [of "reject_one y s st oid"] ids_reject_one [of y s st oid] by auto
qed

lemma foldl_reject_one_term:
  "find (match_fee y s) (fees (foldl (reject_one y s) st ids)) = Some f' \<Longrightarrow>
     \<exists>f. find (match_fee y s) (fees st) = Some f \<and> set (Logs f') \<subseteq> set (Logs f)"
proof (induction ids arbitrary: st)
  case Nil
  then show ?case by simp
next
  case (Cons oid ids)
  from Cons.IH [of "reject_one y s st oid"] Cons.prems obtain f1 where
    f1: "find (match_fee y s) (fees (reject_one y s st oid)) = Some f1"
      "set (Logs f') \<subseteq> set (Logs f1)" by auto
  then obtain f where "find (match_fee y s) (fees st) = Some f" "f1 = pull_logs oid f"
    by (auto simp: find_reject_one)
  with f1 show ?case by (auto simp: pull_logs_def)
qed

lemma foldl_reject_one_gone:
  assumes "distinct (map ID (logs st))" "oid \<in> set ids"
  shows "oid \<notin> ID ` set (logs (foldl (reject_one y s) st ids)) \<and>
         (\<forall>f. find (match_fee y s) (fees (foldl (reject_one y s) st ids)) = Some f \<longrightarrow>
              oid \<notin> set (Logs f))"
  using assms
proof (induction ids arbitrary: st)
  case Nil
  then show ?case by simp
next
  case (Cons a ids)
  let ?st1 = "reject_one y s st a"
  have d1: "distinct (map ID (logs ?st1))" using Cons.prems(1) by (rule distinct_reject_one)
  show ?case
  proof (cases "oid \<in> set ids")
    case True
    from Cons.IH [OF d1 True] show ?thesis by simp
  next
    case False
    with Cons.prems have a: "a = oid" by simp
    have "oid \<notin> ID ` set (logs ?st1)"
      using Cons.prems(1) delete_first_gone [of ID "logs st" oid] by (simp add: reject_one_def a)
    then have g1: "oid \<notin> ID ` set (logs (foldl (reject_one y s) ?st1 ids))"
      using foldl_reject_one_logs [of y s ?st1 ids] by blast
    have g2: "oid \<notin> set (Logs f)" if "find (match_fee y s) (fees (foldl (reject_one y s) ?st1 ids)) = Some f" for f
    proof -
      from foldl_reject_one_term [OF that] obtain f1 where
        f1: "find (match_fee y s) (fees ?st1) = Some f1" "set (Logs f) \<subseteq> set (Logs f1)" by auto
      then obtain f0 where "f1 = pull_logs oid f0" by (auto simp: find_reject_one a)
      then have "oid \<notin> set (Logs f1)" by (simp add: pull_logs_def)
      with f1 show ?thesis by blast
    qed
    from g1 g2 show ?thesis by simp
  qed
qed

text \<open>
  The \<open>_id\<close>s of the collection \<open>logs\<close> stay unique under every operation and every
  schedule of driver failures.
\<close>

lemma logs_Create: "logs (snd (Create fs year semester amount st)) = logs st"
  by (simp add: Create_def InsertOne_fee_def split: prod.splits option.splits)

lemma InsertOne_log_ids:
  "InsertOne_log fs l st = (e, r, st') \<Longrightarrow> distinct (map ID (logs st)) \<Longrightarrow>
     distinct (map ID (logs st'))"
  by (auto simp: InsertOne_log_def split: prod.splits option.splits if_splits)

lemma UpdateOne_fee_logs: "UpdateOne_fee fs p u st = (e, r, st') \<Longrightarrow> logs st' = logs st"
  by (auto simp: UpdateOne_fee_def split: prod.splits option.splits)

lemma DeleteOne_log_ids:
  "DeleteOne_log fs p st = (e, r, st') \<Longrightarrow> distinct (map ID (logs st)) \<Longrightarrow>
     distinct (map ID (logs st'))"
  by (auto simp: DeleteOne_log_def distinct_delete_first split: prod.splits option.splits)

lemma unique_ids_Submit:
  assumes "distinct (map ID (logs st))"
  shows "distinct (map ID (logs (snd (Submit fs oid now memberID year semester amount st))))"
  using assms
  by (auto simp: Submit_def Let_def split: prod.splits option.splits)
     (metis InsertOne_log_ids UpdateOne_fee_logs)+

lemma unique_ids_Deposit:
  assumes "distinct (map ID (logs st))"
  shows "distinct (map ID (logs (snd (Deposit fs oid now year semester amount st))))"
  using assms
  by (auto simp: Deposit_def Let_def split: prod.splits option.splits)
     (metis InsertOne_log_ids UpdateOne_fee_logs)+

lemma unique_ids_Approve:
  assumes "distinct (map ID (logs st))"
  shows "distinct (map ID (logs (snd (Approve fs now ids st))))"
proof -
  have "map ID (logs (snd (Approve fs now ids st))) = map ID (logs st)"
    using Approve_faults [of fs now ids st]
      Approve_frame_logs [of ids now "logs st", THEN conjunct1]
    by (auto simp: Approve_nofault simp del: map_map)
  with assms show ?thesis by (simp only:)
qed

lemma Reject_loop_ids:
  "Reject_loop fs year semester ids st = (e, r, st') \<Longrightarrow> distinct (map ID (logs st)) \<Longrightarrow>
     distinct (map ID (logs st'))"
proof (induction ids arbitrary: fs st)
  case Nil
  then show ?case by simp
next
  case (Cons oid ids)
  show ?case
  proof (cases "UpdateOne_fee fs (match_fee year semester) (pull_logs oid) st")
    case u: (fields e1 fs1 st1)
    have d1: "distinct (map ID (logs st1))"
      using UpdateOne_fee_logs [OF u] Cons.prems(2) by simp
    show ?thesis
    proof (cases e1)
      case (Some a)
      with u Cons.prems(1) d1 show ?thesis by simp
    next
      case None
      show ?thesis
      proof (cases "DeleteOne_log fs1 (\<lambda>l. ID l = oid) st1")
        case d: (fields e2 fs2 st2)
        have d2: "distinct (map ID (logs st2))" using DeleteOne_log_ids [OF d d1] .
        show ?thesis
        proof (cases e2)
          case (Some a)
          with u d None Cons.prems(1) d2 show ?thesis by simp
        next
          case n2: None
          with u d None Cons.prems(1) have "Reject_loop fs2 year semester ids st2 = (e, r, st')"
            by simp
          from Cons.IH [OF this d2] show ?thesis .
        qed
      qed
    qed
  qed
qed

lemma unique_ids_Reject:
  assumes "distinct (map ID (logs st))"
  shows "distinct (map ID (logs (snd (Reject fs year semester ids st))))"
  using assms
  by (auto simp: Reject_def split: prod.splits option.splits dest: Reject_loop_ids)

text \<open>
  Claim C6. \<open>Reject\<close> goes through \<open>ids\<close> in order and, for each identifier, first
  pulls it from the \<open>logs\<close> collection of the term with the given year and semester
  and then deletes the payment log: without driver failure it returns \<open>nil\<close> and the
  database is the one after rejecting the identifiers one by one. A failure of the pull
  for an identifier ends the run with that error, the identifiers before it rejected and
  nothing else changed; a failure of the deletion ends it with that error after the
  pull of this identifier. Whenever \<open>Reject\<close> returns \<open>nil\<close>, on a collection \<open>logs\<close>
  whose \<open>_id\<close>s are unique (as the database keeps them), every identifier of \<open>ids\<close> is
  gone both from the collection \<open>logs\<close> and from the \<open>logs\<close> collection of the term.
\<close>

theorem Reject_pull_then_delete:
  "Reject [] year semester ids st = (None, foldl (reject_one year semester) st ids) \<and>
   Reject (None # replicate (2 * length pre) None @ Some c # fs) year semester
       (pre @ oid # post) st =
     (Some (DriverError c), foldl (reject_one year semester) st pre) \<and>
   Reject (None # replicate (2 * length pre) None @ None # Some c # fs) year semester
       (pre @ oid # post) st =
     (Some (DriverError c),
      (foldl (reject_one year semester) st pre)
        \<lparr>fees := update_first (match_fee year semester) (pull_logs oid)
                  (fees (foldl (reject_one year semester) st pre))\<rparr>) \<and>
   (\<forall>fs' st'. Reject fs' year semester ids st = (None, st') \<and> distinct (map ID (logs st)) \<longrightarrow>
      (\<forall>x \<in> set ids.
         x \<notin> set (map ID (logs st')) \<and>
         (\<forall>f. find (match_fee year semester) (fees st') = Some f \<longrightarrow> x \<notin> set (Logs f))))"
proof (intro conjI allI impI ballI)
  show "Reject [] year semester ids st = (None, foldl (reject_one year semester) st ids)"
    by (rule Reject_nofault)
  show "Reject (None # replicate (2 * length pre) None @ Some c # fs) year semester
       (pre @ oid # post) st =
     (Some (DriverError c), foldl (reject_one year semester) st pre)"
    by (rule Reject_pull_fails)
  show "Reject (None # replicate (2 * length pre) None @ None # Some c # fs) year semester
       (pre @ oid # post) st =
     (Some (DriverError c),
      (foldl (reject_one year semester) st pre)
        \<lparr>fees := update_first (match_fee year semester) (pull_logs oid)
                  (fees (foldl (reject_one year semester) st pre))\<rparr>)"
    by (rule Reject_delete_fails)
next
  fix fs' st' x
  assume a: "Reject fs' year semester ids st = (None, st') \<and> distinct (map ID (logs st))"
    and x: "x \<in> set ids"
  from a have st': "st' = foldl (reject_one year semester) st ids"
    by (auto dest: Reject_success)
  from a x foldl_reject_one_gone [of st x ids year semester]
  show "x \<notin> set (map ID (logs st'))" by (simp add: st')
next
  fix fs' st' x f
  assume a: "Reject fs' year semester ids st = (None, st') \<and> distinct (map ID (logs st))"
    and x: "x \<in> set ids" and f: "find (match_fee year semester) (fees st') = Some f"
  from a have st': "st' = foldl (reject_one year semester) st ids"
    by (auto dest: Reject_success)
  from a x f foldl_reject_one_gone [of st x ids year semester]
  show "x \<notin> set (Logs f)" by (simp add: st')
qed

text \<open>
  Claim C6 at the example. Rejecting the logs 6 and 3 of the term (2024, 1) without
  failure removes both from the collection \<open>logs\<close> and from the term. When the pull
  of log 3 fails, log 6 is rejected and log 3 untouched; when the deletion of log 3
  fails, log 3 is pulled from the term and still in storage.
\<close>

theorem Reject_pull_then_delete_witness:
  "distinct (map ID (logs club)) \<and>
   Reject [] 2024 1 [6, 3] club =
     (None, \<lparr>fees = [\<lparr>Year = 2024, Semester = 1, Amount_fee = 50000, Logs = [1, 2, 5]\<rparr>,
                      term_2023_2],
             logs = [club_logs ! 0, club_logs ! 1, club_logs ! 3, club_logs ! 4],
             members = club_members\<rparr>) \<and>
   3 \<notin> set (map ID (logs (snd (Reject [] 2024 1 [6, 3] club)))) \<and>
   6 \<notin> set (map ID (logs (snd (Reject [] 2024 1 [6, 3] club)))) \<and>
   Reject [None, None, None, Some 9] 2024 1 [6, 3] club =
     (Some (DriverError 9),
      \<lparr>fees = [\<lparr>Year = 2024, Semester = 1, Amount_fee = 50000, Logs = [1, 2, 3, 5]\<rparr>,
               term_2023_2],
       logs = [club_logs ! 0, club_logs ! 1, club_logs ! 2, club_logs ! 3, club_logs ! 4],
       members = club_members\<rparr>) \<and>
   Reject [None, None, None, None, Some 9] 2024 1 [6, 3] club =
     (Some (DriverError 9),
      \<lparr>fees = [\<lparr>Year = 2024, Semester = 1, Amount_fee = 50000, Logs = [1, 2, 5]\<rparr>,
               term_2023_2],
       logs = [club_logs ! 0, club_logs ! 1, club_logs ! 2, club_logs ! 3, club_logs ! 4],
       members = club_members\<rparr>)"
proof -
  note t = Reject_pull_then_delete [where year = 2024 and semester = 1 and ids = "[6, 3]"
      and st = club and pre = "[6]" and oid = 3 and post = "[]" and c = 9 and fs = "[]"]
  have d: "distinct (map ID (logs club))" by simp
  have r: "foldl (reject_one 2024 1) club [6, 3] =
     \<lparr>fees = [\<lparr>Year = 2024, Semester = 1, Amount_fee = 50000, Logs = [1, 2, 5]\<rparr>,
                      term_2023_2],
             logs = [club_logs ! 0, club_logs ! 1, club_logs ! 3, club_logs ! 4],
             members = club_members\<rparr>"
    by (simp add: reject_one_def match_fee_def pull_logs_def)
  have r1: "foldl (reject_one 2024 1) club [6] =
     \<lparr>fees = [\<lparr>Year = 2024, Semester = 1, Amount_fee = 50000, Logs = [1, 2, 3, 5]\<rparr>,
               term_2023_2],
       logs = [club_logs ! 0, club_logs ! 1, club_logs ! 2, club_logs ! 3, club_logs ! 4],
       members = club_members\<rparr>"
    by (simp add: reject_one_def match_fee_def pull_logs_def)
  from t have n: "Reject [] 2024 1 [6, 3] club = (None, foldl (reject_one 2024 1) club [6, 3])"
    by blast
  from t have p: "Reject (None # replicate (2 * length [6::nat]) None @ Some 9 # []) 2024 1
      ([6] @ 3 # []) club = (Some (DriverError 9), foldl (reject_one 2024 1) club [6])"
    by blast
  from t have q: "Reject (None # replicate (2 * length [6::nat]) None @ None # Some 9 # []) 2024 1
      ([6] @ 3 # []) club =
     (Some (DriverError 9),
      (foldl (reject_one 2024 1) club [6])
        \<lparr>fees := update_first (match_fee 2024 1) (pull_logs 3)
                  (fees (foldl (reject_one 2024 1) club [6]))\<rparr>)"
    by blast
  from t have g: "\<forall>fs' st'. Reject fs' 2024 1 [6, 3] club = (None, st') \<and>
      distinct (map ID (logs club)) \<longrightarrow>
      (\<forall>x \<in> set [6, 3]. x \<notin> set (map ID (logs st')))"
    by blast
  from g [rule_format, of "[]" "foldl (reject_one 2024 1) club [6, 3]" 3] n d
  have g3: "3 \<notin> set (map ID (logs (snd (Reject [] 2024 1 [6, 3] club))))" by simp
  from g [rule_format, of "[]" "foldl (reject_one 2024 1) club [6, 3]" 6] n d
  have g6: "6 \<notin> set (map ID (logs (snd (Reject [] 2024 1 [6, 3] club))))" by simp
  have p': "Reject [None, None, None, Some 9] 2024 1 [6, 3] club =
      (Some (DriverError 9), foldl (reject_one 2024 1) club [6])"
    using p by (simp add: numeral_2_eq_2)
  have q': "Reject [None, None, None, None, Some 9] 2024 1 [6, 3] club =
     (Some (DriverError 9),
      (foldl (reject_one 2024 1) club [6])
        \<lparr>fees := update_first (match_fee 2024 1) (pull_logs 3)
                  (fees (foldl (reject_one 2024 1) club [6]))\<rparr>)"
    using q by (simp add: numeral_2_eq_2)
  have r2: "(foldl (reject_one 2024 1) club [6])
        \<lparr>fees := update_first (match_fee 2024 1) (pull_logs 3)
                  (fees (foldl (reject_one 2024 1) club [6]))\<rparr> =
      \<lparr>fees = [\<lparr>Year = 2024, Semester = 1, Amount_fee = 50000, Logs = [1, 2, 5]\<rparr>,
               term_2023_2],
       logs = [club_logs ! 0, club_logs ! 1, club_logs ! 2, club_logs ! 3, club_logs ! 4],
       members = club_members\<rparr>"
    unfolding r1 by (simp add: match_fee_def pull_logs_def)
  note c2 = n [unfolded r] and c5 = p' [unfolded r1] and c6 = q' [unfolded r2]
  from d c2 g3 g6 c5 c6 show ?thesis by blast
qed

section \<open>Persistence failures\<close>

text \<open>
  Claim C8 fails on the code. With the lookup of \<open>Create\<close> failing with the driver
  error 7 on an empty database, \<open>Create\<close> returns \<open>ErrDuplicatedFee\<close>, not the error of
  the driver: the test \<open>err != mongo.ErrNoDocuments\<close> takes every other error for a
  document found. With the insertion of the log failing with the driver error 7,
  \<open>Deposit\<close> returns \<open>nil\<close>, and the term refers to the log 9 that is not in storage.
  The other operations hand the same failures on: \<open>Amount\<close> returns the error of its
  lookup, \<open>Submit\<close> the error of its insertion.
\<close>

theorem persistence_errors_not_surfaced:
  "Create [None, Some 7] 2024 1 50000 \<lparr>fees = [], logs = [], members = []\<rparr> =
     (Some ErrDuplicatedFee, \<lparr>fees = [], logs = [], members = []\<rparr>) \<and>
   Deposit [None, None, Some 7] 9 100 2024 1 50000
     \<lparr>fees = [\<lparr>Year = 2024, Semester = 1, Amount_fee = 50000, Logs = []\<rparr>],
      logs = [], members = []\<rparr> =
     (None,
      \<lparr>fees = [\<lparr>Year = 2024, Semester = 1, Amount_fee = 50000, Logs = [9]\<rparr>],
       logs = [], members = []\<rparr>) \<and>
   Amount [None, Some 7] 2024 1 ''M1'' \<lparr>fees = [], logs = [], members = []\<rparr> =
     (0, Some (DriverError 7)) \<and>
   Submit [None, Some 7] 9 100 ''M1'' 2024 1 50000
     \<lparr>fees = [\<lparr>Year = 2024, Semester = 1, Amount_fee = 50000, Logs = []\<rparr>],
      logs = [], members = []\<rparr> =
     (Some (DriverError 7),
      \<lparr>fees = [\<lparr>Year = 2024, Semester = 1, Amount_fee = 50000, Logs = []\<rparr>],
       logs = [], members = []\<rparr>)"
  by (simp add: Create_def Deposit_def Amount_def Submit_def Connect_def Disconnect_def
      FindOne_fee_def InsertOne_log_def UpdateOne_fee_def call_None call_Some call_Nil
      NewLog_def match_fee_def push_logs_def)

section \<open>Dangling references\<close>

text \<open>
  \<open>Deposit\<close> pushes the identifier before it inserts the log: between its two storage
  steps the term refers to a log that is not in storage.
\<close>

lemma Deposit_between_dangling:
  "Deposit_between [] 9 100 2024 1 50000
     \<lparr>fees = [\<lparr>Year = 2024, Semester = 1, Amount_fee = 50000, Logs = []\<rparr>],
      logs = [], members = []\<rparr> =
     Some \<lparr>fees = [\<lparr>Year = 2024, Semester = 1, Amount_fee = 50000, Logs = [9]\<rparr>],
           logs = [], members = []\<rparr> \<and>
   \<not> no_dangling \<lparr>fees = [\<lparr>Year = 2024, Semester = 1, Amount_fee = 50000, Logs = [9]\<rparr>],
                    logs = [], members = []\<rparr>"
  by (simp add: Deposit_between_def Connect_def UpdateOne_fee_def call_Nil NewLog_def
      match_fee_def push_logs_def no_dangling_def)

lemma Create_success:
  assumes "Create fs year semester amount st = (None, st')"
  shows "find (match_fee year semester) (fees st) = None \<and>
         st' = st\<lparr>fees := fees st @ [New year semester amount]\<rparr>"
  using assms
  by (auto simp: Create_def FindOne_fee_def InsertOne_fee_def dest: call_error
      split: prod.splits option.splits if_splits)

lemma Submit_between_success:
  assumes "Submit_between fs oid now memberID amount st = Some st1"
  shows "st1 = st\<lparr>logs := logs st @ [NewLog oid now memberID ''unapproved'' amount]\<rparr>"
  using assms
  by (auto simp: Submit_between_def InsertOne_log_def split: prod.splits option.splits if_splits)

lemma Submit_success:
  assumes "Submit fs oid now memberID year semester amount st = (None, st')"
  shows "\<exists>st1. Submit_between fs oid now memberID amount st = Some st1 \<and>
           st' = st1\<lparr>fees := update_first (match_fee year semester) (push_logs oid) (fees st1)\<rparr>"
  using assms
  by (auto simp: Submit_def Submit_between_def InsertOne_log_def UpdateOne_fee_def NewLog_def Let_def
      split: prod.splits option.splits if_splits)

lemma Approve_success:
  assumes "Approve fs now ids st = (None, st')"
  shows "st' = st\<lparr>logs := map (\<lambda>l. if ID l \<in> set ids
                then l\<lparr>Type := ''approved'', UpdatedAt := now\<rparr> else l) (logs st)\<rparr>"
  using assms
  by (auto simp: Approve_def UpdateMany_log_def split: prod.splits option.splits)

lemma update_first_as_map:
  assumes "distinct (map key xs)" "\<And>x. p x \<longleftrightarrow> key x = k"
  shows "update_first p u xs = map (\<lambda>x. if p x then u x else x) xs"
  using assms(1)
proof (induction xs)
  case Nil
  show ?case by simp
next
  case (Cons x xs)
  show ?case
  proof (cases "p x")
    case True
    have "key x \<notin> key ` set xs" using Cons.prems by simp
    moreover have "key x = k" using True assms(2) by simp
    ultimately have "\<forall>y \<in> set xs. \<not> p y" using assms(2) by (metis imageI)
    then have "map (\<lambda>x. if p x then u x else x) xs = xs" by (simp add: map_idI)
    with True show ?thesis by simp
  next
    case False
    with Cons show ?thesis by simp
  qed
qed

lemma keys_update_first:
  assumes "\<And>x. key (u x) = key x"
  shows "map key (update_first p u xs) = map key xs"
  using assms by (induction xs) auto

lemma fee_key_push: "(Year (push_logs oid f), Semester (push_logs oid f)) = (Year f, Semester f)"
  by (simp add: push_logs_def)

lemma fee_key_pull: "(Year (pull_logs oid f), Semester (pull_logs oid f)) = (Year f, Semester f)"
  by (simp add: pull_logs_def)

lemma in_update_first:
  "x \<in> set (update_first p u xs) \<Longrightarrow> x \<in> set xs \<or> (\<exists>y \<in> set xs. x = u y)"
  by (induction xs) (auto split: if_splits)

lemma consistent_Create:
  assumes "consistent st" "Create fs year semester amount st = (None, st')"
  shows "consistent st'"
proof -
  from Create_success [OF assms(2)] have
    n: "find (match_fee year semester) (fees st) = None" and
    st': "st' = st\<lparr>fees := fees st @ [New year semester amount]\<rparr>" by auto
  from n have "(year, semester) \<notin> set (map (\<lambda>f. (Year f, Semester f)) (fees st))"
    by (auto simp: find_None_iff match_fee_def)
  with assms(1) show ?thesis
    by (auto simp: consistent_def no_dangling_def unique_terms_def st' New_def)
qed

lemma consistent_Submit_between:
  assumes "consistent st" "Submit_between fs oid now memberID amount st = Some st1"
  shows "consistent st1"
  using assms(1) Submit_between_success [OF assms(2)]
  by (auto simp: consistent_def no_dangling_def unique_terms_def)

lemma consistent_Submit:
  assumes "consistent st" "Submit fs oid now memberID year semester amount st = (None, st')"
  shows "consistent st'"
proof -
  from Submit_success [OF assms(2)] obtain st1 where
    b: "Submit_between fs oid now memberID amount st = Some st1" and
    st': "st' = st1\<lparr>fees := update_first (match_fee year semester) (push_logs oid) (fees st1)\<rparr>"
    by auto
  from Submit_between_success [OF b] have
    st1: "st1 = st\<lparr>logs := logs st @ [NewLog oid now memberID ''unapproved'' amount]\<rparr>" .
  have c1: "consistent st1" using assms(1) b by (rule consistent_Submit_between)
  have "\<forall>f \<in> set (fees st'). \<forall>x \<in> set (Logs f). x \<in> set (map ID (logs st'))"
  proof (intro ballI)
    fix f x assume f: "f \<in> set (fees st')" and x: "x \<in> set (Logs f)"
    from f have "f \<in> set (fees st1) \<or> (\<exists>g \<in> set (fees st1). f = push_logs oid g)"
      using in_update_first [of f "match_fee year semester" "push_logs oid" "fees st1"]
      by (simp add: st')
    then show "x \<in> set (map ID (logs st'))"
    proof
      assume "f \<in> set (fees st1)"
      with c1 x show ?thesis by (auto simp: consistent_def no_dangling_def st')
    next
      assume "\<exists>g \<in> set (fees st1). f = push_logs oid g"
      then obtain g where g: "g \<in> set (fees st1)" "f = push_logs oid g" by auto
      with x have "x = oid \<or> x \<in> set (Logs g)" by (auto simp: push_logs_def)
      then show ?thesis
      proof
        assume "x = oid"
        then show ?thesis by (simp add: st' st1 NewLog_def)
      next
        assume "x \<in> set (Logs g)"
        with c1 g show ?thesis by (auto simp: consistent_def no_dangling_def st')
      qed
    qed
  qed
  moreover have "unique_terms st'"
    using c1 by (simp add: consistent_def unique_terms_def st' keys_update_first fee_key_push)
  ultimately show ?thesis by (simp add: consistent_def no_dangling_def)
qed

lemma consistent_Approve:
  assumes "consistent st" "Approve fs now ids st = (None, st')"
  shows "consistent st'"
proof -
  have "map ID (map (\<lambda>l. if ID l \<in> set ids
            then l\<lparr>Type := ''approved'', UpdatedAt := now\<rparr> else l) (logs st)) = map ID (logs st)"
    by (induction "logs st") auto
  with assms(1) show ?thesis
    unfolding Approve_success [OF assms(2)]
    by (simp add: consistent_def no_dangling_def unique_terms_def)
qed

lemma ids_delete_first_other:
  "x \<noteq> k \<Longrightarrow> x \<in> f ` set xs \<Longrightarrow> x \<in> f ` set (delete_first (\<lambda>y. f y = k) xs)"
  by (induction xs) auto

lemma fees_reject_one:
  assumes "unique_terms st"
  shows "fees (reject_one y s st oid) =
           map (\<lambda>f. if match_fee y s f then pull_logs oid f else f) (fees st)"
proof -
  have "update_first (match_fee y s) (pull_logs oid) (fees st) =
          map (\<lambda>f. if match_fee y s f then pull_logs oid f else f) (fees st)"
    by (rule update_first_as_map [where key = "\<lambda>f. (Year f, Semester f)" and k = "(y, s)"])
       (use assms in \<open>auto simp: unique_terms_def match_fee_def\<close>)
  then show ?thesis by (simp add: reject_one_def)
qed

lemma consistent_reject_one:
  assumes "consistent st" "owned_by y s (oid # ids) st"
  shows "consistent (reject_one y s st oid) \<and> owned_by y s ids (reject_one y s st oid)"
proof -
  let ?st' = "reject_one y s st oid"
  from assms(1) have u: "unique_terms st" and nd: "no_dangling st"
    by (simp_all add: consistent_def)
  note fs' = fees_reject_one [OF u, of y s oid]
  have logs': "logs ?st' = delete_first (\<lambda>l. ID l = oid) (logs st)"
    by (simp add: reject_one_def)
  have "\<forall>f' \<in> set (fees ?st'). \<forall>x \<in> set (Logs f'). x \<in> set (map ID (logs ?st'))"
  proof (intro ballI)
    fix f' x assume f': "f' \<in> set (fees ?st')" and x: "x \<in> set (Logs f')"
    from f' obtain f where f: "f \<in> set (fees st)"
      "f' = (if match_fee y s f then pull_logs oid f else f)"
      unfolding fs' by auto
    have "x \<noteq> oid \<and> x \<in> set (Logs f)"
    proof (cases "match_fee y s f")
      case True
      with f x show ?thesis by (auto simp: pull_logs_def)
    next
      case False
      with f x assms(2) show ?thesis by (auto simp: owned_by_def)
    qed
    moreover from this f nd have "x \<in> ID ` set (logs st)" by (auto simp: no_dangling_def)
    ultimately show "x \<in> set (map ID (logs ?st'))"
      using ids_delete_first_other [of x oid ID "logs st"] by (simp add: logs')
  qed
  moreover have "unique_terms ?st'"
    using u by (simp add: unique_terms_def reject_one_def keys_update_first fee_key_pull)
  moreover have "owned_by y s ids ?st'"
    unfolding owned_by_def
  proof (intro ballI impI)
    fix f' x assume f': "f' \<in> set (fees ?st')" and x: "x \<in> set ids" "x \<in> set (Logs f')"
    from f' obtain f where f: "f \<in> set (fees st)"
      "f' = (if match_fee y s f then pull_logs oid f else f)"
      unfolding fs' by auto
    show "match_fee y s f'"
    proof (cases "match_fee y s f")
      case True
      with f show ?thesis by (simp add: match_fee_pull_logs)
    next
      case False
      with f x assms(2) show ?thesis by (auto simp: owned_by_def)
    qed
  qed
  ultimately show ?thesis by (simp add: consistent_def no_dangling_def)
qed

lemma consistent_foldl_reject_one:
  "consistent st \<Longrightarrow> owned_by y s ids st \<Longrightarrow> consistent (foldl (reject_one y s) st ids)"
proof (induction ids arbitrary: st)
  case Nil
  then show ?case by simp
next
  case (Cons oid ids)
  from consistent_reject_one [OF Cons.prems] Cons.IH show ?case by simp
qed

lemma consistent_Reject:
  assumes "consistent st" "owned_by y s ids st" "Reject fs y s ids st = (None, st')"
  shows "consistent st'"
  using consistent_foldl_reject_one [OF assms(1,2)] Reject_success [OF assms(3)] by simp

lemma consistent_served:
  "consistent st0 \<Longrightarrow> served qs st0 = Some st \<Longrightarrow> consistent st"
proof (induction qs arbitrary: st0)
  case Nil
  then show ?case by simp
next
  case (Cons q qs)
  from Cons.prems(2) obtain st1 where
    a: "admitted q st0" and q: "serve q st0 = (None, st1)" and r: "served qs st1 = Some st"
    by (auto split: if_splits prod.splits option.splits)
  have "consistent st1"
  proof (cases q)
    case (ReqCreate fs year semester amount)
    with q show ?thesis using consistent_Create [OF Cons.prems(1)] by simp
  next
    case (ReqSubmit fs oid now memberID year semester amount)
    with q show ?thesis using consistent_Submit [OF Cons.prems(1)] by simp
  next
    case (ReqApprove fs now ids)
    with q show ?thesis using consistent_Approve [OF Cons.prems(1)] by simp
  next
    case (ReqReject fs year semester ids)
    with q a show ?thesis using consistent_Reject [OF Cons.prems(1)] by simp
  qed
  from Cons.IH [OF this r] show ?case .
qed

text \<open>
  Claim C9, as stated, fails. The terms (2024, 1) and (2024, 2) are created, M1 submits
  a payment for (2024, 1), which gets the identifier 7, and \<open>Reject\<close> is called for
  the log 7 with the term (2024, 2). Every call returns \<open>nil\<close>; in the end the log 7
  is deleted and the term (2024, 1) still refers to it.
\<close>

theorem Reject_other_term_counterexample:
  "Create [] 2024 1 50000 \<lparr>fees = [], logs = [], members = []\<rparr> =
     (None, \<lparr>fees = [\<lparr>Year = 2024, Semester = 1, Amount_fee = 50000, Logs = []\<rparr>],
             logs = [], members = []\<rparr>) \<and>
   Create [] 2024 2 50000
     \<lparr>fees = [\<lparr>Year = 2024, Semester = 1, Amount_fee = 50000, Logs = []\<rparr>],
      logs = [], members = []\<rparr> =
     (None, \<lparr>fees = [\<lparr>Year = 2024, Semester = 1, Amount_fee = 50000, Logs = []\<rparr>,
                      \<lparr>Year = 2024, Semester = 2, Amount_fee = 50000, Logs = []\<rparr>],
             logs = [], members = []\<rparr>) \<and>
   Submit [] 7 100 ''M1'' 2024 1 30000
     \<lparr>fees = [\<lparr>Year = 2024, Semester = 1, Amount_fee = 50000, Logs = []\<rparr>,
              \<lparr>Year = 2024, Semester = 2, Amount_fee = 50000, Logs = []\<rparr>],
      logs = [], members = []\<rparr> =
     (None, \<lparr>fees = [\<lparr>Year = 2024, Semester = 1, Amount_fee = 50000, Logs = [7]\<rparr>,
                      \<lparr>Year = 2024, Semester = 2, Amount_fee = 50000, Logs = []\<rparr>],
             logs = [\<lparr>ID = 7, MemberID = ''M1'', Type = ''unapproved'', Amount_log = 30000,
                      UpdatedAt = 100\<rparr>],
             members = []\<rparr>) \<and>
   Reject [] 2024 2 [7]
     \<lparr>fees = [\<lparr>Year = 2024, Semester = 1, Amount_fee = 50000, Logs = [7]\<rparr>,
              \<lparr>Year = 2024, Semester = 2, Amount_fee = 50000, Logs = []\<rparr>],
      logs = [\<lparr>ID = 7, MemberID = ''M1'', Type = ''unapproved'', Amount_log = 30000,
               UpdatedAt = 100\<rparr>],
      members = []\<rparr> =
     (None, \<lparr>fees = [\<lparr>Year = 2024, Semester = 1, Amount_fee = 50000, Logs = [7]\<rparr>,
                      \<lparr>Year = 2024, Semester = 2, Amount_fee = 50000, Logs = []\<rparr>],
             logs = [], members = []\<rparr>) \<and>
   \<not> no_dangling
       \<lparr>fees = [\<lparr>Year = 2024, Semester = 1, Amount_fee = 50000, Logs = [7]\<rparr>,
                \<lparr>Year = 2024, Semester = 2, Amount_fee = 50000, Logs = []\<rparr>],
        logs = [], members = []\<rparr>"
  by (simp add: Create_nofault Reject_nofault reject_one_def Submit_def Connect_def
      Disconnect_def InsertOne_log_def UpdateOne_fee_def call_Nil NewLog_def match_fee_def
      push_logs_def pull_logs_def no_dangling_def)

text \<open>
  Claim C9, amended. Start from a database without terms and let the request layer
  make calls of \<open>Create\<close>, \<open>Submit\<close>, \<open>Approve\<close> and \<open>Reject\<close>, under any schedules of
  driver failures, every call returning \<open>nil\<close> and every call of \<open>Reject\<close> naming the
  term that owns the identifiers (no other term holds one of them). Then in the
  database reached every identifier in the \<open>logs\<close> collection of a term is the
  identifier of a payment log in storage; and so it is between the two storage steps
  of any \<open>Submit\<close> started there, after the insertion of the log and before the push.
  \<open>Deposit\<close> is not among the calls.
\<close>

theorem no_dangling_invariant:
  assumes "fees st0 = []" and "served qs st0 = Some st"
  shows "no_dangling st \<and>
         (\<forall>fs oid now memberID amount st1.
             Submit_between fs oid now memberID amount st = Some st1 \<longrightarrow> no_dangling st1)"
proof -
  have "consistent st0"
    using assms(1) by (simp add: consistent_def no_dangling_def unique_terms_def)
  then have c: "consistent st" using assms(2) by (rule consistent_served)
  have "no_dangling st1" if "Submit_between fs oid now memberID amount st = Some st1"
    for fs oid now memberID amount st1
    using consistent_Submit_between [OF c that] by (simp add: consistent_def)
  with c show ?thesis by (simp add: consistent_def)
qed

text \<open>
  Claim C9, amended, at a run: the term (2024, 1) is created, M1 and M2 submit the logs
  7 and 8, both are approved, and log 8 is rejected with its term. The term then
  refers to log 7, which is in storage, also after the insertion of a further log 9.
\<close>

theorem no_dangling_invariant_witness:
  "served
     [ReqCreate [] 2024 1 50000,
      ReqSubmit [] 7 100 ''M1'' 2024 1 30000,
      ReqSubmit [] 8 110 ''M2'' 2024 1 20000,
      ReqApprove [] 120 [7, 8],
      ReqReject [] 2024 1 [8]]
     \<lparr>fees = [], logs = [], members = club_members\<rparr> =
     Some \<lparr>fees = [\<lparr>Year = 2024, Semester = 1, Amount_fee = 50000, Logs = [7]\<rparr>],
           logs = [\<lparr>ID = 7, MemberID = ''M1'', Type = ''approved'', Amount_log = 30000,
                    UpdatedAt = 120\<rparr>],
           members = club_members\<rparr> \<and>
   no_dangling
     \<lparr>fees = [\<lparr>Year = 2024, Semester = 1, Amount_fee = 50000, Logs = [7]\<rparr>],
      logs = [\<lparr>ID = 7, MemberID = ''M1'', Type = ''approved'', Amount_log = 30000,
               UpdatedAt = 120\<rparr>],
      members = club_members\<rparr> \<and>
   Submit_between [] 9 130 ''M2'' 20000
     \<lparr>fees = [\<lparr>Year = 2024, Semester = 1, Amount_fee = 50000, Logs = [7]\<rparr>],
      logs = [\<lparr>ID = 7, MemberID = ''M1'', Type = ''approved'', Amount_log = 30000,
               UpdatedAt = 120\<rparr>],
      members = club_members\<rparr> =
     Some \<lparr>fees = [\<lparr>Year = 2024, Semester = 1, Amount_fee = 50000, Logs = [7]\<rparr>],
           logs = [\<lparr>ID = 7, MemberID = ''M1'', Type = ''approved'', Amount_log = 30000,
                    UpdatedAt = 120\<rparr>,
                   \<lparr>ID = 9, MemberID = ''M2'', Type = ''unapproved'', Amount_log = 20000,
                    UpdatedAt = 130\<rparr>],
           members = club_members\<rparr> \<and>
   no_dangling
     \<lparr>fees = [\<lparr>Year = 2024, Semester = 1, Amount_fee = 50000, Logs = [7]\<rparr>],
      logs = [\<lparr>ID = 7, MemberID = ''M1'', Type = ''approved'', Amount_log = 30000,
               UpdatedAt = 120\<rparr>,
              \<lparr>ID = 9, MemberID = ''M2'', Type = ''unapproved'', Amount_log = 20000,
               UpdatedAt = 130\<rparr>],
      members = club_members\<rparr>"
proof -
  have e: "fees \<lparr>fees = [], logs = [], members = club_members\<rparr> = []" by simp
  have r: "served
     [ReqCreate [] 2024 1 50000,
      ReqSubmit [] 7 100 ''M1'' 2024 1 30000,
      ReqSubmit [] 8 110 ''M2'' 2024 1 20000,
      ReqApprove [] 120 [7, 8],
      ReqReject [] 2024 1 [8]]
     \<lparr>fees = [], logs = [], members = club_members\<rparr> =
     Some \<lparr>fees = [\<lparr>Year = 2024, Semester = 1, Amount_fee = 50000, Logs = [7]\<rparr>],
           logs = [\<lparr>ID = 7, MemberID = ''M1'', Type = ''approved'', Amount_log = 30000,
                    UpdatedAt = 120\<rparr>],
           members = club_members\<rparr>"
    by (simp add: Create_nofault Approve_nofault Reject_nofault reject_one_def Submit_def
        Connect_def Disconnect_def InsertOne_log_def UpdateOne_fee_def call_Nil NewLog_def
        match_fee_def push_logs_def pull_logs_def owned_by_def)
  have b: "Submit_between [] 9 130 ''M2'' 20000
     \<lparr>fees = [\<lparr>Year = 2024, Semester = 1, Amount_fee = 50000, Logs = [7]\<rparr>],
      logs = [\<lparr>ID = 7, MemberID = ''M1'', Type = ''approved'', Amount_log = 30000,
               UpdatedAt = 120\<rparr>],
      members = club_members\<rparr> =
     Some \<lparr>fees = [\<lparr>Year = 2024, Semester = 1, Amount_fee = 50000, Logs = [7]\<rparr>],
           logs = [\<lparr>ID = 7, MemberID = ''M1'', Type = ''approved'', Amount_log = 30000,
                    UpdatedAt = 120\<rparr>,
                   \<lparr>ID = 9, MemberID = ''M2'', Type = ''unapproved'', Amount_log = 20000,
                    UpdatedAt = 130\<rparr>],
           members = club_members\<rparr>"
    by (simp add: Submit_between_def Connect_def InsertOne_log_def call_Nil NewLog_def)
  from no_dangling_invariant [OF e r] r b show ?thesis by blast
qed

end
